theory Spec2Isabelle
  imports Main
begin

unbundle bit_operations_syntax

section \<open>Python library functions the two scripts call\<close>

text \<open>
  The repository holds two near-identical scripts, \<^verbatim>\<open>ffplay-music-player.py\<close> and
  \<^verbatim>\<open>music-shuffle-player-termux.py\<close>. Definitions that model code found in only one of
  them carry the prefix \<open>ff_\<close> or \<open>tx_\<close>; code that is the same text in both is modelled once.

  File names and paths are byte strings (\<^typ>\<open>string\<close>) holding valid UTF-8, so that
  \<^verbatim>\<open>str.encode('utf-8')\<close> is the identity on them. Console output is not modelled.
\<close>

subsection \<open>\<^verbatim>\<open>str.rfind\<close>, slices, \<^verbatim>\<open>str.lower\<close>\<close>

fun rfind_from :: "char \<Rightarrow> string \<Rightarrow> int \<Rightarrow> int \<Rightarrow> int" where
  "rfind_from c [] i found = found"
| "rfind_from c (x # xs) i found = rfind_from c xs (i + 1) (if x = c then i else found)"

text \<open>\<^verbatim>\<open>p.rfind(c)\<close>: the highest index of \<open>c\<close> in \<open>p\<close>, or \<open>-1\<close>.\<close>

definition rfind :: "string \<Rightarrow> char \<Rightarrow> int" where
  "rfind p c = rfind_from c p 0 (- 1)"

text \<open>\<^verbatim>\<open>p[i:j]\<close> for \<open>0 \<le> i\<close>.\<close>

definition slice :: "string \<Rightarrow> int \<Rightarrow> int \<Rightarrow> string" where
  "slice p i j = take (nat (j - i)) (drop (nat i) p)"

text \<open>
  \<^verbatim>\<open>str.lower\<close> on the ASCII letters. The allow-list below is pure ASCII, and no non-ASCII
  code point lower-cases to one of its letters, so membership of a lower-cased extension in
  the allow-list is decided by the ASCII letters alone.
\<close>

definition char_lower :: "char \<Rightarrow> char" where
  "char_lower c =
    (case map_of (zip ''ABCDEFGHIJKLMNOPQRSTUVWXYZ'' ''abcdefghijklmnopqrstuvwxyz'') c of
       Some l \<Rightarrow> l
     | None \<Rightarrow> c)"

definition lower :: "string \<Rightarrow> string" where
  "lower s = map char_lower s"

subsection \<open>\<^verbatim>\<open>os.path\<close> (posixpath)\<close>

text \<open>\<^verbatim>\<open>os.path.basename(p)\<close> is \<^verbatim>\<open>p[p.rfind('/') + 1:]\<close>.\<close>

definition basename :: "string \<Rightarrow> string" where
  "basename p = drop (nat (rfind p CHR ''/'' + 1)) p"

text \<open>
  The loop of \<^verbatim>\<open>genericpath._splitext\<close> that skips leading dots: \<open>True\<close> when it finds a
  character other than a dot before \<open>dotIndex\<close> (and the function returns the split there),
  \<open>False\<close> when it falls through.
\<close>

function splitext_scan :: "string \<Rightarrow> int \<Rightarrow> int \<Rightarrow> bool" where
  "splitext_scan p filenameIndex dotIndex =
    (if filenameIndex < dotIndex
     then (if slice p filenameIndex (filenameIndex + 1) \<noteq> ''.'' then True
           else splitext_scan p (filenameIndex + 1) dotIndex)
     else False)"
  by pat_completeness auto
termination
  by (relation "measure (\<lambda>(p, f, d). nat (d - f))") auto

declare splitext_scan.simps [simp del]

definition splitext :: "string \<Rightarrow> string \<times> string" where
  "splitext p =
    (let sepIndex = rfind p CHR ''/'';
         dotIndex = rfind p CHR ''.''
     in if dotIndex > sepIndex \<and> splitext_scan p (sepIndex + 1) dotIndex
        then (take (nat dotIndex) p, drop (nat dotIndex) p)
        else (p, ''''))"

text \<open>\<^verbatim>\<open>os.path.join(a, b)\<close> with two arguments.\<close>

definition join :: "string \<Rightarrow> string \<Rightarrow> string" where
  "join a b =
    (if take 1 b = ''/'' then b
     else if a = '''' \<or> drop (length a - 1) a = ''/'' then a @ b
     else a @ ''/'' @ b)"

subsection \<open>\<^verbatim>\<open>hashlib.md5\<close> (RFC 1321)\<close>

text \<open>32-bit words are naturals below \<open>2 ^ 32\<close>, with the wrap-around written out.\<close>

definition md5_K :: "nat list" where
  "md5_K =
    [0xd76aa478, 0xe8c7b756, 0x242070db, 0xc1bdceee, 0xf57c0faf, 0x4787c62a, 0xa8304613, 0xfd469501,
     0x698098d8, 0x8b44f7af, 0xffff5bb1, 0x895cd7be, 0x6b901122, 0xfd987193, 0xa679438e, 0x49b40821,
     0xf61e2562, 0xc040b340, 0x265e5a51, 0xe9b6c7aa, 0xd62f105d, 0x02441453, 0xd8a1e681, 0xe7d3fbc8,
     0x21e1cde6, 0xc33707d6, 0xf4d50d87, 0x455a14ed, 0xa9e3e905, 0xfcefa3f8, 0x676f02d9, 0x8d2a4c8a,
     0xfffa3942, 0x8771f681, 0x6d9d6122, 0xfde5380c, 0xa4beea44, 0x4bdecfa9, 0xf6bb4b60, 0xbebfbc70,
     0x289b7ec6, 0xeaa127fa, 0xd4ef3085, 0x04881d05, 0xd9d4d039, 0xe6db99e5, 0x1fa27cf8, 0xc4ac5665,
     0xf4292244, 0x432aff97, 0xab9423a7, 0xfc93a039, 0x655b59c3, 0x8f0ccc92, 0xffeff47d, 0x85845dd1,
     0x6fa87e4f, 0xfe2ce6e0, 0xa3014314, 0x4e0811a1, 0xf7537e82, 0xbd3af235, 0x2ad7d2bb, 0xeb86d391]"

definition md5_s :: "nat list" where
  "md5_s =
    [7, 12, 17, 22, 7, 12, 17, 22, 7, 12, 17, 22, 7, 12, 17, 22,
     5, 9, 14, 20, 5, 9, 14, 20, 5, 9, 14, 20, 5, 9, 14, 20,
     4, 11, 16, 23, 4, 11, 16, 23, 4, 11, 16, 23, 4, 11, 16, 23,
     6, 10, 15, 21, 6, 10, 15, 21, 6, 10, 15, 21, 6, 10, 15, 21]"

definition u32 :: "nat \<Rightarrow> nat" where
  "u32 x = x mod 4294967296"

definition not32 :: "nat \<Rightarrow> nat" where
  "not32 x = 4294967295 - x"

definition rotl32 :: "nat \<Rightarrow> nat \<Rightarrow> nat" where
  "rotl32 x n = u32 (x * 2 ^ n) OR x div 2 ^ (32 - n)"

definition md5_mix :: "nat \<Rightarrow> nat \<Rightarrow> nat \<Rightarrow> nat \<Rightarrow> nat" where
  "md5_mix i B C D =
    (if i < 16 then (B AND C) OR (not32 B AND D)
     else if i < 32 then (D AND B) OR (not32 D AND C)
     else if i < 48 then B XOR C XOR D
     else C XOR (B OR not32 D))"

definition md5_idx :: "nat \<Rightarrow> nat" where
  "md5_idx i =
    (if i < 16 then i
     else if i < 32 then (5 * i + 1) mod 16
     else if i < 48 then (3 * i + 5) mod 16
     else (7 * i) mod 16)"

text \<open>The 64 operations on one block \<open>M\<close> of sixteen words, \<open>i\<close> counting them.\<close>

fun md5_rounds ::
  "nat list \<Rightarrow> nat list \<Rightarrow> nat list \<Rightarrow> nat \<Rightarrow> nat \<times> nat \<times> nat \<times> nat \<Rightarrow> nat \<times> nat \<times> nat \<times> nat" where
  "md5_rounds M (k # ks) (s # ss) i (A, B, C, D) =
     md5_rounds M ks ss (i + 1)
       (D, u32 (B + rotl32 (u32 (md5_mix i B C D + A + k + M ! md5_idx i)) s), B, C)"
| "md5_rounds M _ _ i st = st"

definition md5_block :: "nat \<times> nat \<times> nat \<times> nat \<Rightarrow> nat list \<Rightarrow> nat \<times> nat \<times> nat \<times> nat" where
  "md5_block st M =
    (case st of (a0, b0, c0, d0) \<Rightarrow>
      (case md5_rounds M md5_K md5_s 0 st of (A, B, C, D) \<Rightarrow>
        (u32 (a0 + A), u32 (b0 + B), u32 (c0 + C), u32 (d0 + D))))"

text \<open>Little-endian bytes of a 32-bit and of a 64-bit number, and a word from its bytes.\<close>

definition le_bytes4 :: "nat \<Rightarrow> nat list" where
  "le_bytes4 n = [n mod 256, n div 256 mod 256, n div 65536 mod 256, n div 16777216 mod 256]"

definition le_bytes8 :: "nat \<Rightarrow> nat list" where
  "le_bytes8 n = le_bytes4 (n mod 4294967296) @ le_bytes4 (n div 4294967296)"

fun le_word :: "nat list \<Rightarrow> nat" where
  "le_word [] = 0"
| "le_word (b # bs) = b + 256 * le_word bs"

function chunks :: "nat \<Rightarrow> 'a list \<Rightarrow> 'a list list" where
  "chunks n xs = (if n = 0 \<or> xs = [] then [] else take n xs # chunks n (drop n xs))"
  by pat_completeness auto
termination
  by (relation "measure (\<lambda>(n, xs). length xs)") auto

declare chunks.simps [simp del]

text \<open>
  Padding: the byte \<open>0x80\<close>, zero bytes up to 56 modulo 64, then the length in bits as
  eight bytes.
\<close>

definition md5_zeros :: "nat list" where
  "md5_zeros =
    [0, 0, 0, 0, 0, 0, 0, 0, 0, 0, 0, 0, 0, 0, 0, 0, 0, 0, 0, 0, 0, 0, 0, 0, 0, 0, 0, 0, 0, 0, 0, 0,
     0, 0, 0, 0, 0, 0, 0, 0, 0, 0, 0, 0, 0, 0, 0, 0, 0, 0, 0, 0, 0, 0, 0, 0, 0, 0, 0, 0, 0, 0, 0, 0]"

definition md5_pad :: "nat list \<Rightarrow> nat list" where
  "md5_pad bs =
    bs @ [128] @ take ((119 - length bs mod 64) mod 64) md5_zeros
       @ le_bytes8 ((8 * length bs) mod 18446744073709551616)"

definition md5_digest :: "nat list \<Rightarrow> nat list" where
  "md5_digest bs =
    (case foldl md5_block (0x67452301, 0xefcdab89, 0x98badcfe, 0x10325476)
            (map (\<lambda>blk. map le_word (chunks 4 blk)) (chunks 64 (md5_pad bs)))
     of (a, b, c, d) \<Rightarrow> le_bytes4 a @ le_bytes4 b @ le_bytes4 c @ le_bytes4 d)"

definition hex_digit :: "nat \<Rightarrow> char" where
  "hex_digit n = ''0123456789abcdef'' ! (n mod 16)"

definition hex_byte :: "nat \<Rightarrow> string" where
  "hex_byte b = [hex_digit (b div 16), hex_digit b]"

text \<open>\<^verbatim>\<open>hashlib.md5(s.encode('utf-8')).hexdigest()\<close>.\<close>

definition md5_hexdigest :: "string \<Rightarrow> string" where
  "md5_hexdigest s = concat (map hex_byte (md5_digest (map of_char s)))"

section \<open>Library scanner\<close>

definition MUSIC_EXTS :: "string set" where
  "MUSIC_EXTS =
    {''.mp3'', ''.flac'', ''.wav'', ''.m4a'', ''.ogg'', ''.aac'',
     ''.opus'', ''.wma'', ''.ape'', ''.aiff'', ''.dsf''}"

text \<open>
  \<^verbatim>\<open>gather_music_files\<close> (the same text in both scripts). Its argument stands for what
  \<^verbatim>\<open>os.walk(folder)\<close> yields: for each directory visited, its path \<open>root\<close> and the names of
  the files in it.
\<close>

definition gather_music_files :: "(string \<times> string list) list \<Rightarrow> string list" where
  "gather_music_files walk =
    concat (map (\<lambda>(root, filenames).
      map (join root) (filter (\<lambda>name. lower (snd (splitext name)) \<in> MUSIC_EXTS) filenames)) walk)"

section \<open>Temp name deriver\<close>

text \<open>
  The first lines of \<^verbatim>\<open>copy_to_temp_md5\<close> (the same text in both scripts): the name of the
  staged copy and its path in the directory \<open>temp_dir\<close> that \<^verbatim>\<open>tempfile.gettempdir()\<close> returns.
\<close>

definition desired_name :: "string \<Rightarrow> string" where
  "desired_name original_path =
    (let base = basename original_path;
         (name_without_ext, ext) = splitext base;
         hash_md5 = md5_hexdigest name_without_ext
     in hash_md5 @ ext)"

definition dest_path :: "string \<Rightarrow> string \<Rightarrow> string" where
  "dest_path temp_dir original_path = join temp_dir (desired_name original_path)"

section \<open>Files, exceptions and the state of the world\<close>

datatype node = File string | Dir

type_synonym fs = "string \<Rightarrow> node option"

text \<open>
  The exceptions the scripts meet. \<^verbatim>\<open>FileNotFoundError\<close> is a subclass of \<^verbatim>\<open>OSError\<close>;
  \<^verbatim>\<open>KeyboardInterrupt\<close> and \<^verbatim>\<open>SystemExit\<close> are not subclasses of \<^verbatim>\<open>Exception\<close>.
\<close>

datatype exn =
    OSError
  | FileNotFoundError
  | CalledProcessError
  | UnboundLocalError
  | KeyboardInterrupt
  | SystemExit int

definition is_OSError :: "exn \<Rightarrow> bool" where
  "is_OSError x = (x = OSError \<or> x = FileNotFoundError)"

definition is_Exception :: "exn \<Rightarrow> bool" where
  "is_Exception x = (case x of KeyboardInterrupt \<Rightarrow> False | SystemExit _ \<Rightarrow> False | _ \<Rightarrow> True)"

text \<open>
  What a piece of code does: it returns, it raises, or it is still running when the scripted
  part of the environment ends (\<open>Pending\<close>).
\<close>

datatype 'a res = Return 'a | Raise exn | Pending

text \<open>
  An ffplay process as \<^verbatim>\<open>Popen.poll()\<close> sees it. \<open>Alive graceful\<close> is running; \<open>graceful\<close>
  tells whether it ends within the two seconds granted after \<^verbatim>\<open>terminate()\<close>.
\<close>

datatype proc = Ended | Alive bool

text \<open>What the scripts do to the external player, in order.\<close>

datatype action =
    Popen string
  | Terminate
  | Wait_timeout nat
  | Kill
  | Termux_play string
  | Termux_info
  | Termux_stop

text \<open>
  \<open>disk\<close> is the file system now, \<open>seen\<close> every earlier file system, newest first: what an
  observer of the disk has been able to see. \<open>ffplay_process\<close> is the global of that name.
\<close>

record world =
  disk :: fs
  seen :: "fs list"
  ffplay_process :: "proc option"
  sent :: "action list"

definition put_disk :: "fs \<Rightarrow> world \<Rightarrow> world" where
  "put_disk f w = w\<lparr>disk := f, seen := disk w # seen w\<rparr>"

definition os_path_exists :: "world \<Rightarrow> string \<Rightarrow> bool" where
  "os_path_exists w p = (case disk w p of None \<Rightarrow> False | Some _ \<Rightarrow> True)"

definition os_path_isdir :: "world \<Rightarrow> string \<Rightarrow> bool" where
  "os_path_isdir w p = (case disk w p of Some Dir \<Rightarrow> True | _ \<Rightarrow> False)"

text \<open>\<^verbatim>\<open>os.remove\<close> and \<^verbatim>\<open>os.rename\<close>: the exception raised, if any, and the world after.\<close>

definition os_remove :: "string \<Rightarrow> world \<Rightarrow> exn option \<times> world" where
  "os_remove p w =
    (case disk w p of
       None \<Rightarrow> (Some FileNotFoundError, w)
     | Some Dir \<Rightarrow> (Some OSError, w)
     | Some (File c) \<Rightarrow> (None, put_disk ((disk w)(p := None)) w))"

definition os_rename :: "bool \<Rightarrow> string \<Rightarrow> string \<Rightarrow> world \<Rightarrow> exn option \<times> world" where
  "os_rename fault src dst w =
    (if fault then (Some OSError, w)
     else case disk w src of
       None \<Rightarrow> (Some FileNotFoundError, w)
     | Some n \<Rightarrow>
        (case disk w dst of
           Some Dir \<Rightarrow> (Some OSError, w)
         | _ \<Rightarrow> (None, put_disk ((disk w)(src := None, dst := Some n)) w)))"

definition open_rb :: "string \<Rightarrow> world \<Rightarrow> string res" where
  "open_rb p w =
    (case disk w p of
       None \<Rightarrow> Raise FileNotFoundError
     | Some Dir \<Rightarrow> Raise OSError
     | Some (File c) \<Rightarrow> Return c)"

section \<open>Staged copy manager\<close>

text \<open>
  What the environment does to one call of \<^verbatim>\<open>copy_to_temp_md5\<close>: the random name parts
  \<^verbatim>\<open>NamedTemporaryFile\<close> draws, in order; whether creating the scratch file is refused;
  whether reading or writing fails at some chunk of the copy (counted from 0); whether the
  rename is refused.
\<close>

record stage_env =
  candidates :: "string list"
  create_fault :: bool
  copy_fault :: "nat option"
  rename_fault :: bool

text \<open>
  \<^verbatim>\<open>tempfile.NamedTemporaryFile(dir=temp_dir, suffix=ext, delete=False)\<close>: the first drawn name
  \<^verbatim>\<open>tmp<random><suffix>\<close> at which nothing exists is created as an empty file.
\<close>

definition NamedTemporaryFile :: "stage_env \<Rightarrow> string \<Rightarrow> string \<Rightarrow> world \<Rightarrow> string res \<times> world" where
  "NamedTemporaryFile e dir suffix w =
    (if create_fault e then (Raise OSError, w)
     else case find (\<lambda>name. disk w name = None)
                 (map (\<lambda>r. join dir (''tmp'' @ r @ suffix)) (candidates e)) of
            None \<Rightarrow> (Raise OSError, w)
          | Some name \<Rightarrow> (Return name, put_disk ((disk w)(name := Some (File ''''))) w))"

definition COPY_BUFSIZE :: nat where
  "COPY_BUFSIZE = 65536"

definition fdst_write :: "string \<Rightarrow> string \<Rightarrow> world \<Rightarrow> world" where
  "fdst_write name buf w =
    (case disk w name of
       Some (File c) \<Rightarrow> put_disk ((disk w)(name := Some (File (c @ buf)))) w
     | _ \<Rightarrow> w)"

text \<open>The loop of \<^verbatim>\<open>shutil.copyfileobj\<close> over the chunks read from the source.\<close>

fun copy_loop :: "string \<Rightarrow> string list \<Rightarrow> nat option \<Rightarrow> world \<Rightarrow> unit res \<times> world" where
  "copy_loop name [] fault w = (Return (), w)"
| "copy_loop name (buf # bufs) fault w =
    (if fault = Some 0 then (Raise OSError, w)
     else copy_loop name bufs (map_option (\<lambda>k. k - 1) fault) (fdst_write name buf w))"

definition copyfileobj :: "string \<Rightarrow> string \<Rightarrow> nat option \<Rightarrow> world \<Rightarrow> unit res \<times> world" where
  "copyfileobj content name fault w = copy_loop name (chunks COPY_BUFSIZE content) fault w"

text \<open>
  The \<^verbatim>\<open>try\<close> block of \<^verbatim>\<open>copy_to_temp_md5\<close> (the same text in both scripts). Besides its result
  it gives the binding of the local \<^verbatim>\<open>tmp_path\<close> at the moment it ends: the variable is
  assigned only after the copy, as the last statement inside the outer \<^verbatim>\<open>with\<close>.
\<close>

definition copy_to_temp_md5_try ::
  "stage_env \<Rightarrow> string \<Rightarrow> string \<Rightarrow> string \<Rightarrow> string \<Rightarrow> world \<Rightarrow> string res \<times> string option \<times> world" where
  "copy_to_temp_md5_try e temp_dir ext original_path dest w =
    (case NamedTemporaryFile e temp_dir ext w of
       (Return tmp_file, w1) \<Rightarrow>
        (case open_rb original_path w1 of
           Return content \<Rightarrow>
            (case copyfileobj content tmp_file (copy_fault e) w1 of
               (Return _, w2) \<Rightarrow>
                (let tmp_path = tmp_file;
                     (removed, w3) = (if os_path_exists w2 dest then os_remove dest w2
                                      else (None, w2))
                 in case removed of
                      Some x \<Rightarrow> (Raise x, Some tmp_path, w3)
                    | None \<Rightarrow>
                       (case os_rename (rename_fault e) tmp_path dest w3 of
                          (Some x, w4) \<Rightarrow> (Raise x, Some tmp_path, w4)
                        | (None, w4) \<Rightarrow> (Return dest, Some tmp_path, w4)))
             | (Raise x, w2) \<Rightarrow> (Raise x, None, w2)
             | (Pending, w2) \<Rightarrow> (Pending, None, w2))
         | Raise x \<Rightarrow> (Raise x, None, w1)
         | Pending \<Rightarrow> (Pending, None, w1))
     | (Raise x, w1) \<Rightarrow> (Raise x, None, w1)
     | (Pending, w1) \<Rightarrow> (Pending, None, w1))"

text \<open>
  The handler of the ffplay script:
  \<^verbatim>\<open>if 'tmp_path' in locals() and os.path.exists(tmp_path): os.remove(tmp_path)\<close>, then
  \<^verbatim>\<open>return None\<close>.
\<close>

definition ff_copy_to_temp_md5 ::
  "stage_env \<Rightarrow> string \<Rightarrow> string \<Rightarrow> world \<Rightarrow> string option res \<times> world" where
  "ff_copy_to_temp_md5 e temp_dir original_path w =
    (let ext = snd (splitext (basename original_path));
         dest = dest_path temp_dir original_path
     in case copy_to_temp_md5_try e temp_dir ext original_path dest w of
          (Return d, _, w1) \<Rightarrow> (Return (Some d), w1)
        | (Pending, _, w1) \<Rightarrow> (Pending, w1)
        | (Raise x, tmp_path, w1) \<Rightarrow>
           (if is_Exception x then
              (case tmp_path of
                 None \<Rightarrow> (Return None, w1)
               | Some t \<Rightarrow>
                  (if os_path_exists w1 t then
                     (case os_remove t w1 of
                        (Some y, w2) \<Rightarrow> (Raise y, w2)
                      | (None, w2) \<Rightarrow> (Return None, w2))
                   else (Return None, w1)))
            else (Raise x, w1)))"

text \<open>
  The handler of the Termux script: \<^verbatim>\<open>if os.path.exists(tmp_path): os.remove(tmp_path)\<close>, then
  \<^verbatim>\<open>return None\<close>. Reading the unassigned local raises \<^verbatim>\<open>UnboundLocalError\<close>.
\<close>

definition tx_copy_to_temp_md5 ::
  "stage_env \<Rightarrow> string \<Rightarrow> string \<Rightarrow> world \<Rightarrow> string option res \<times> world" where
  "tx_copy_to_temp_md5 e temp_dir original_path w =
    (let ext = snd (splitext (basename original_path));
         dest = dest_path temp_dir original_path
     in case copy_to_temp_md5_try e temp_dir ext original_path dest w of
          (Return d, _, w1) \<Rightarrow> (Return (Some d), w1)
        | (Pending, _, w1) \<Rightarrow> (Pending, w1)
        | (Raise x, tmp_path, w1) \<Rightarrow>
           (if is_Exception x then
              (case tmp_path of
                 None \<Rightarrow> (Raise UnboundLocalError, w1)
               | Some t \<Rightarrow>
                  (if os_path_exists w1 t then
                     (case os_remove t w1 of
                        (Some y, w2) \<Rightarrow> (Raise y, w2)
                      | (None, w2) \<Rightarrow> (Return None, w2))
                   else (Return None, w1)))
            else (Raise x, w1)))"

section \<open>Player supervisor\<close>

subsection \<open>The ffplay script\<close>

text \<open>
  What happens to one call of \<^verbatim>\<open>play_file\<close>: \<^verbatim>\<open>Popen\<close> raises; or the process is started
  and \<^verbatim>\<open>wait()\<close> returns its exit status; or \<^verbatim>\<open>wait()\<close> is interrupted by
  \<^verbatim>\<open>KeyboardInterrupt\<close>, the process being in the given state at that moment.
\<close>

datatype ffplay_run = Spawn_fails exn | Exits int | Interrupted proc

definition cleanup_ffplay :: "world \<Rightarrow> world" where
  "cleanup_ffplay w =
    (case ffplay_process w of
       Some (Alive graceful) \<Rightarrow>
        (let w1 = w\<lparr>sent := sent w @ [Terminate, Wait_timeout 2]\<rparr>;
             w2 = (if graceful then w1 else w1\<lparr>sent := sent w1 @ [Kill]\<rparr>)
         in w2\<lparr>ffplay_process := None\<rparr>)
     | _ \<Rightarrow> w)"

text \<open>The \<^verbatim>\<open>except\<close> clauses and the \<^verbatim>\<open>finally\<close> of \<^verbatim>\<open>play_file\<close>, for an exception \<open>x\<close>.\<close>

definition ff_play_file_except :: "exn \<Rightarrow> world \<Rightarrow> bool res \<times> world" where
  "ff_play_file_except x w =
    (if x = KeyboardInterrupt then (Raise x, (cleanup_ffplay w)\<lparr>ffplay_process := None\<rparr>)
     else if is_Exception x then (Return False, w\<lparr>ffplay_process := None\<rparr>)
     else (Raise x, w\<lparr>ffplay_process := None\<rparr>))"

definition ff_play_file :: "ffplay_run \<Rightarrow> string \<Rightarrow> world \<Rightarrow> bool res \<times> world" where
  "ff_play_file run filepath w =
    (case run of
       Spawn_fails x \<Rightarrow> ff_play_file_except x w
     | Exits returncode \<Rightarrow>
        (let w1 = w\<lparr>ffplay_process := Some Ended, sent := sent w @ [Popen filepath]\<rparr>
         in (Return (returncode = 0), w1\<lparr>ffplay_process := None\<rparr>))
     | Interrupted p \<Rightarrow>
        ff_play_file_except KeyboardInterrupt
          (w\<lparr>ffplay_process := Some p, sent := sent w @ [Popen filepath]\<rparr>))"

text \<open>\<^verbatim>\<open>check_ffplay\<close>, given whether \<^verbatim>\<open>shutil.which('ffplay')\<close> finds the executable.\<close>

definition check_ffplay :: "bool \<Rightarrow> unit res" where
  "check_ffplay found = (if found then Return () else Raise (SystemExit 1))"

subsection \<open>The Termux script\<close>

text \<open>
  What happens to one run of \<^verbatim>\<open>termux-media-player play\<close> and of
  \<^verbatim>\<open>termux-media-player info\<close>: the executable is missing, or the command ends with an exit
  status (and, for \<^verbatim>\<open>info\<close>, an output), or \<^verbatim>\<open>KeyboardInterrupt\<close> arrives while it runs.
\<close>

datatype termux_run = Run_not_found | Run_exits int | Run_interrupted

datatype termux_info = Info_not_found | Info_exits int string | Info_interrupted

definition stop_music :: "world \<Rightarrow> world" where
  "stop_music w = w\<lparr>sent := sent w @ [Termux_stop]\<rparr>"

text \<open>\<^verbatim>\<open>needle in haystack\<close> on strings.\<close>

fun contains :: "string \<Rightarrow> string \<Rightarrow> bool" where
  "contains needle [] = (needle = [])"
| "contains needle (c # cs) = (take (length needle) (c # cs) = needle \<or> contains needle cs)"

definition is_playing :: "termux_info \<Rightarrow> world \<Rightarrow> bool res \<times> world" where
  "is_playing ev w =
    (case ev of
       Info_not_found \<Rightarrow> (Raise (SystemExit 1), w)
     | Info_interrupted \<Rightarrow> (Raise KeyboardInterrupt, w\<lparr>sent := sent w @ [Termux_info]\<rparr>)
     | Info_exits returncode output \<Rightarrow>
        (Return (if returncode = 0 then \<not> contains ''No track currently'' output else False),
         w\<lparr>sent := sent w @ [Termux_info]\<rparr>))"

definition tx_play_file :: "termux_run \<Rightarrow> string \<Rightarrow> world \<Rightarrow> bool res \<times> world" where
  "tx_play_file run filepath w =
    (case run of
       Run_not_found \<Rightarrow> (Raise FileNotFoundError, w)
     | Run_interrupted \<Rightarrow> (Raise KeyboardInterrupt, w\<lparr>sent := sent w @ [Termux_play filepath]\<rparr>)
     | Run_exits returncode \<Rightarrow>
        (Return (returncode = 0), w\<lparr>sent := sent w @ [Termux_play filepath]\<rparr>))"

section \<open>Playback loop\<close>

text \<open>
  The staged file may be gone by the time the play step ends (the scripts say so: ``might
  already be gone''); \<open>gone\<close> tells whether it is.
\<close>

definition staged_file_gone :: "bool \<Rightarrow> string \<Rightarrow> world \<Rightarrow> world" where
  "staged_file_gone gone temp_path w =
    (if gone then put_disk ((disk w)(temp_path := None)) w else w)"

text \<open>\<^verbatim>\<open>try: os.remove(temp_path)\<close> \<^verbatim>\<open>except OSError: pass\<close>, in a \<^verbatim>\<open>finally\<close> clause after result \<open>r\<close>.\<close>

definition finally_remove :: "string \<Rightarrow> 'a res \<Rightarrow> world \<Rightarrow> 'a res \<times> world" where
  "finally_remove temp_path r w =
    (case os_remove temp_path w of
       (None, w1) \<Rightarrow> (r, w1)
     | (Some x, w1) \<Rightarrow> (if is_OSError x then (r, w1) else (Raise x, w1)))"

subsection \<open>The ffplay script\<close>

record ff_track =
  ff_stage :: stage_env
  ff_run :: ffplay_run
  ff_gone :: bool

text \<open>The body of the \<^verbatim>\<open>for\<close> loop.\<close>

definition ff_iteration :: "string \<Rightarrow> ff_track \<Rightarrow> string \<Rightarrow> world \<Rightarrow> unit res \<times> world" where
  "ff_iteration temp_dir ev song w =
    (case ff_copy_to_temp_md5 (ff_stage ev) temp_dir song w of
       (Return None, w1) \<Rightarrow> (Return (), w1)
     | (Return (Some temp_path), w1) \<Rightarrow>
        (case ff_play_file (ff_run ev) temp_path w1 of
           (played, w2) \<Rightarrow>
             finally_remove temp_path
               (case played of Return success \<Rightarrow> Return () | Raise x \<Rightarrow> Raise x | Pending \<Rightarrow> Pending)
               (staged_file_gone (ff_gone ev) temp_path w2))
     | (Raise x, w1) \<Rightarrow> (Raise x, w1)
     | (Pending, w1) \<Rightarrow> (Pending, w1))"

fun ff_for :: "string \<Rightarrow> ff_track list \<Rightarrow> string list \<Rightarrow> world \<Rightarrow> unit res \<times> world" where
  "ff_for temp_dir evs [] w = (Return (), w)"
| "ff_for temp_dir [] (song # songs) w = (Pending, w)"
| "ff_for temp_dir (ev # evs) (song # songs) w =
    (case ff_iteration temp_dir ev song w of
       (Return _, w1) \<Rightarrow> ff_for temp_dir evs songs w1
     | (Raise x, w1) \<Rightarrow> (Raise x, w1)
     | (Pending, w1) \<Rightarrow> (Pending, w1))"

text \<open>
  \<^verbatim>\<open>random.shuffle\<close>: for \<open>i\<close> from the last index down to 1, swap \<open>x[i]\<close> with \<open>x[j]\<close>,
  \<open>j\<close> drawn below \<open>i + 1\<close>. The draws come from the environment; a missing draw counts 0.
\<close>

fun shuffle_from :: "nat \<Rightarrow> nat list \<Rightarrow> 'a list \<Rightarrow> 'a list" where
  "shuffle_from 0 draws x = x"
| "shuffle_from (Suc k) draws x =
    (let i = Suc k;
         j = (case draws of [] \<Rightarrow> 0 | r # _ \<Rightarrow> r mod (i + 1))
     in shuffle_from k (drop 1 draws) (x[i := x ! j, j := x ! i]))"

definition shuffle :: "nat list \<Rightarrow> 'a list \<Rightarrow> 'a list" where
  "shuffle draws x = shuffle_from (length x - 1) draws x"

text \<open>
  \<^verbatim>\<open>while True\<close>: one element of the script for each pass, holding the draws of the shuffle and
  what happens to each track. The loop never returns; when the script ends it is \<open>Pending\<close>.
\<close>

fun ff_while :: "string \<Rightarrow> (nat list \<times> ff_track list) list \<Rightarrow> string list \<Rightarrow> world \<Rightarrow> unit res \<times> world" where
  "ff_while temp_dir [] songs w = (Pending, w)"
| "ff_while temp_dir ((draws, evs) # passes) songs w =
    (case ff_for temp_dir evs (shuffle draws songs) w of
       (Return _, w1) \<Rightarrow> ff_while temp_dir passes (shuffle draws songs) w1
     | (Raise x, w1) \<Rightarrow> (Raise x, w1)
     | (Pending, w1) \<Rightarrow> (Pending, w1))"

text \<open>How the process ends: with an exit status, or not within the script (\<open>Running\<close>).\<close>

datatype outcome = Exit int | Running

record ff_env =
  ff_argv :: "string list"
  ff_which :: bool
  ff_walk :: "(string \<times> string list) list"
  ff_temp_dir :: string
  ff_script :: "(nat list \<times> ff_track list) list"

text \<open>
  \<^verbatim>\<open>main\<close>. \<^verbatim>\<open>cleanup_ffplay\<close> is registered with \<^verbatim>\<open>atexit\<close> after the check for ffplay, and
  so runs at every later exit. An exception nothing catches ends the process with status 1.
\<close>

definition ff_main :: "ff_env \<Rightarrow> world \<Rightarrow> outcome \<times> world" where
  "ff_main e w =
    (if length (ff_argv e) \<noteq> 2 then (Exit 1, w)
     else let folder = ff_argv e ! 1 in
       if \<not> os_path_isdir w folder then (Exit 1, w)
       else case check_ffplay (ff_which e) of
         Raise x \<Rightarrow> (Exit 1, w)
       | Pending \<Rightarrow> (Running, w)
       | Return _ \<Rightarrow>
          (let songs = gather_music_files (ff_walk e) in
           if songs = [] then (Exit 1, cleanup_ffplay w)
           else case ff_while (ff_temp_dir e) (ff_script e) songs w of
                  (Raise x, w1) \<Rightarrow>
                    (if x = KeyboardInterrupt then (Exit 0, cleanup_ffplay (cleanup_ffplay w1))
                     else (case x of SystemExit n \<Rightarrow> (Exit n, cleanup_ffplay w1)
                                   | _ \<Rightarrow> (Exit 1, cleanup_ffplay w1)))
                | (_, w1) \<Rightarrow> (Running, w1)))"

subsection \<open>The Termux script\<close>

record tx_track =
  tx_stage :: stage_env
  tx_run :: termux_run
  tx_gone :: bool
  tx_polls :: "(termux_info \<times> bool) list"

text \<open>
  \<^verbatim>\<open>while is_playing(): time.sleep(1)\<close>. Each round takes one element of the script: what
  \<^verbatim>\<open>info\<close> does, and whether the sleep after it is interrupted.
\<close>

fun tx_wait :: "(termux_info \<times> bool) list \<Rightarrow> world \<Rightarrow> unit res \<times> world" where
  "tx_wait [] w = (Pending, w)"
| "tx_wait ((ev, sleep_interrupted) # evs) w =
    (case is_playing ev w of
       (Return playing, w1) \<Rightarrow>
         (if playing then (if sleep_interrupted then (Raise KeyboardInterrupt, w1) else tx_wait evs w1)
          else (Return (), w1))
     | (Raise x, w1) \<Rightarrow> (Raise x, w1)
     | (Pending, w1) \<Rightarrow> (Pending, w1))"

text \<open>The \<^verbatim>\<open>try\<close> block inside the \<^verbatim>\<open>for\<close> loop.\<close>

definition tx_iteration_try :: "tx_track \<Rightarrow> string \<Rightarrow> world \<Rightarrow> unit res \<times> world" where
  "tx_iteration_try ev temp_path w =
    (case tx_play_file (tx_run ev) temp_path w of
       (Return played, w1) \<Rightarrow>
         (let w2 = staged_file_gone (tx_gone ev) temp_path w1 in
          if \<not> played then
            (case os_remove temp_path w2 of
               (Some x, w3) \<Rightarrow> (Raise x, w3)
             | (None, w3) \<Rightarrow> (Return (), w3))
          else tx_wait (tx_polls ev) w2)
     | (Raise x, w1) \<Rightarrow> (Raise x, staged_file_gone (tx_gone ev) temp_path w1)
     | (Pending, w1) \<Rightarrow> (Pending, w1))"

definition tx_iteration :: "string \<Rightarrow> tx_track \<Rightarrow> string \<Rightarrow> world \<Rightarrow> unit res \<times> world" where
  "tx_iteration temp_dir ev song w =
    (case tx_copy_to_temp_md5 (tx_stage ev) temp_dir song w of
       (Return None, w1) \<Rightarrow> (Return (), w1)
     | (Return (Some temp_path), w1) \<Rightarrow>
        (case tx_iteration_try ev temp_path w1 of
           (Pending, w2) \<Rightarrow> (Pending, w2)
         | (r, w2) \<Rightarrow> finally_remove temp_path r w2)
     | (Raise x, w1) \<Rightarrow> (Raise x, w1)
     | (Pending, w1) \<Rightarrow> (Pending, w1))"

fun tx_for :: "string \<Rightarrow> tx_track list \<Rightarrow> string list \<Rightarrow> world \<Rightarrow> unit res \<times> world" where
  "tx_for temp_dir evs [] w = (Return (), w)"
| "tx_for temp_dir [] (song # songs) w = (Pending, w)"
| "tx_for temp_dir (ev # evs) (song # songs) w =
    (case tx_iteration temp_dir ev song w of
       (Return _, w1) \<Rightarrow> tx_for temp_dir evs songs w1
     | (Raise x, w1) \<Rightarrow> (Raise x, w1)
     | (Pending, w1) \<Rightarrow> (Pending, w1))"

fun tx_while :: "string \<Rightarrow> (nat list \<times> tx_track list) list \<Rightarrow> string list \<Rightarrow> world \<Rightarrow> unit res \<times> world" where
  "tx_while temp_dir [] songs w = (Pending, w)"
| "tx_while temp_dir ((draws, evs) # passes) songs w =
    (case tx_for temp_dir evs (shuffle draws songs) w of
       (Return _, w1) \<Rightarrow> tx_while temp_dir passes (shuffle draws songs) w1
     | (Raise x, w1) \<Rightarrow> (Raise x, w1)
     | (Pending, w1) \<Rightarrow> (Pending, w1))"

record tx_env =
  tx_argv :: "string list"
  tx_walk :: "(string \<times> string list) list"
  tx_temp_dir :: string
  tx_script :: "(nat list \<times> tx_track list) list"

text \<open>
  \<^verbatim>\<open>main\<close>. \<^verbatim>\<open>stop_music\<close> is registered with \<^verbatim>\<open>atexit\<close> after the directory check, and so
  runs at every later exit. The script has no check for the player before the loop.
\<close>

definition tx_main :: "tx_env \<Rightarrow> world \<Rightarrow> outcome \<times> world" where
  "tx_main e w =
    (if length (tx_argv e) \<noteq> 2 then (Exit 1, w)
     else let folder = tx_argv e ! 1 in
       if \<not> os_path_isdir w folder then (Exit 1, w)
       else let songs = gather_music_files (tx_walk e) in
         if songs = [] then (Exit 1, stop_music w)
         else case tx_while (tx_temp_dir e) (tx_script e) songs w of
                (Raise x, w1) \<Rightarrow>
                  (if x = KeyboardInterrupt then (Exit 0, stop_music (stop_music w1))
                   else (case x of SystemExit n \<Rightarrow> (Exit n, stop_music w1)
                                 | _ \<Rightarrow> (Exit 1, stop_music w1)))
              | (_, w1) \<Rightarrow> (Running, w1))"

text \<open>
  A run of ffplay that is not an interruption: the player exits, or cannot be started and
  \<^verbatim>\<open>Popen\<close> raises an ordinary exception.
\<close>

definition ff_benign :: "ff_track \<Rightarrow> bool" where
  "ff_benign ev = (case ff_run ev of Exits rc \<Rightarrow> True | Spawn_fails x \<Rightarrow> is_Exception x | Interrupted pr \<Rightarrow> False)"

text \<open>What an observer of path \<open>p\<close> has seen up to now, oldest first.\<close>

definition observed :: "world \<Rightarrow> string \<Rightarrow> node option list" where
  "observed w p = rev (map (\<lambda>f. f p) (disk w # seen w))"

section \<open>Example worlds\<close>

text \<open>
  A library \<^verbatim>\<open>/music\<close> holding \<^verbatim>\<open>songA.mp3\<close>, with nothing staged; the same after the file has
  been deleted; and one where a stale staged copy lies at the derived-name path.
\<close>

definition music_disk :: fs where
  "music_disk = (\<lambda>p. None)(''/music'' := Some Dir, ''/tmp'' := Some Dir,
     ''/music/songA.mp3'' := Some (File ''RIFF''))"

definition music_world :: world where
  "music_world = \<lparr>disk = music_disk, seen = [], ffplay_process = None, sent = []\<rparr>"

definition deleted_world :: world where
  "deleted_world = music_world\<lparr>disk := music_disk(''/music/songA.mp3'' := None)\<rparr>"

definition stale_world :: world where
  "stale_world = music_world\<lparr>disk := music_disk(''/tmp/8fb0aec765227888a14d5426bd526a97.mp3'' := Some (File ''old''))\<rparr>"

definition no_fault :: stage_env where
  "no_fault = \<lparr>candidates = [''ab12cd34''], create_fault = False, copy_fault = None,
     rename_fault = False\<rparr>"

text \<open>
  Command lines and scans for that library, for a given script of what happens in the loop.
\<close>

definition ff_example :: "bool \<Rightarrow> (nat list \<times> ff_track list) list \<Rightarrow> ff_env" where
  "ff_example found script =
    \<lparr>ff_argv = [''ffplay-music-player.py'', ''/music''], ff_which = found,
     ff_walk = [(''/music'', [''songA.mp3'', ''notes.txt''])], ff_temp_dir = ''/tmp'',
     ff_script = script\<rparr>"

definition tx_example :: "(nat list \<times> tx_track list) list \<Rightarrow> tx_env" where
  "tx_example script =
    \<lparr>tx_argv = [''music-shuffle-player-termux.py'', ''/music''],
     tx_walk = [(''/music'', [''songA.mp3'', ''notes.txt''])], tx_temp_dir = ''/tmp'',
     tx_script = script\<rparr>"

text \<open>
  Tracks of the scripts: the player exits with the given status, and the staged file is or is
  not gone by then; for Termux, \<^verbatim>\<open>info\<close> then reports that no track is loaded.
\<close>

definition ff_exits :: "int \<Rightarrow> bool \<Rightarrow> ff_track" where
  "ff_exits status gone = \<lparr>ff_stage = no_fault, ff_run = Exits status, ff_gone = gone\<rparr>"

definition tx_exits :: "int \<Rightarrow> bool \<Rightarrow> tx_track" where
  "tx_exits status gone =
    \<lparr>tx_stage = no_fault, tx_run = Run_exits status, tx_gone = gone,
     tx_polls = [(Info_exits 0 ''No track currently!'', False)]\<rparr>"

section \<open>Facts about the library functions\<close>

lemma rfind_from_append:
  "rfind_from c (xs @ ys) i f = rfind_from c ys (i + int (length xs)) (rfind_from c xs i f)"
  by (induction xs arbitrary: i f) (auto simp: algebra_simps)

lemma rfind_from_notin: "c \<notin> set xs \<Longrightarrow> rfind_from c xs i f = f"
  by (induction xs arbitrary: i f) auto

lemma rfind_notin: "c \<notin> set p \<Longrightarrow> rfind p c = - 1"
  by (simp add: rfind_def rfind_from_notin)

lemma rfind_last: "c \<notin> set ys \<Longrightarrow> rfind (xs @ c # ys) c = int (length xs)"
  by (simp add: rfind_def rfind_from_append rfind_from_notin)

lemma basename_notin: "CHR ''/'' \<notin> set name \<Longrightarrow> basename name = name"
  by (simp add: basename_def rfind_notin)

lemma basename_append: "CHR ''/'' \<notin> set name \<Longrightarrow> basename (d @ CHR ''/'' # name) = name"
proof -
  assume "CHR ''/'' \<notin> set name"
  then have "rfind (d @ CHR ''/'' # name) CHR ''/'' = int (length d)" by (rule rfind_last)
  moreover have "nat (int (length d) + 1) = Suc (length d)" by simp
  ultimately show ?thesis by (simp add: basename_def)
qed

lemma basename_join: "CHR ''/'' \<notin> set name \<Longrightarrow> basename (join d name) = name"
proof -
  assume n: "CHR ''/'' \<notin> set name"
  have t: "take 1 name \<noteq> ''/''" using n by (cases name) auto
  show ?thesis
  proof (cases "d = '''' \<or> drop (length d - 1) d = ''/''")
    case False
    then show ?thesis using t n by (simp add: join_def basename_append)
  next
    case True
    show ?thesis
    proof (cases "d = ''''")
      case True
      then show ?thesis using t n by (simp add: join_def basename_notin)
    next
      case False
      with True have "drop (length d - 1) d = ''/''" by simp
      then have "d = take (length d - 1) d @ ''/''"
        by (metis append_take_drop_id)
      then obtain d' where d: "d = d' @ ''/''" ..
      have "basename (d' @ CHR ''/'' # name) = name" using n by (rule basename_append)
      then show ?thesis using t d by (simp add: join_def)
    qed
  qed
qed

lemmas md5_eval = md5_hexdigest_def md5_digest_def md5_pad_def md5_zeros_def md5_block_def
  md5_K_def md5_s_def u32_def not32_def rotl32_def md5_mix_def md5_idx_def hex_byte_def
  hex_digit_def chunks.simps le_bytes4_def le_bytes8_def

text \<open>Test vectors: the digest of the empty string (RFC 1321) and of a file name used below.\<close>

lemma md5_hexdigest_empty: "md5_hexdigest '''' = ''d41d8cd98f00b204e9800998ecf8427e''"
  by (simp add: md5_eval)

lemma md5_hexdigest_songA: "md5_hexdigest ''songA'' = ''8fb0aec765227888a14d5426bd526a97''"
  by (simp add: md5_eval)

lemma char_lower_dot: "char_lower c = CHR ''.'' \<longleftrightarrow> c = CHR ''.''"
  by (auto simp: char_lower_def split: if_splits)

lemma char_lower_slash: "char_lower c = CHR ''/'' \<longleftrightarrow> c = CHR ''/''"
  by (auto simp: char_lower_def split: if_splits)

lemma lower_dot_mem: "CHR ''.'' \<in> set (lower s) \<longleftrightarrow> CHR ''.'' \<in> set s"
  unfolding lower_def set_map image_iff using char_lower_dot by metis

lemma lower_slash_mem: "CHR ''/'' \<in> set (lower s) \<longleftrightarrow> CHR ''/'' \<in> set s"
  unfolding lower_def set_map image_iff using char_lower_slash by metis

lemma splitext_dotfile:
  assumes "CHR ''.'' \<notin> set r" and "CHR ''/'' \<notin> set r"
  shows "splitext (CHR ''.'' # r) = (CHR ''.'' # r, '''')"
proof -
  have d: "rfind (CHR ''.'' # r) CHR ''.'' = 0"
    using rfind_last [of "CHR ''.''" r "[]"] assms by simp
  have s: "rfind (CHR ''.'' # r) CHR ''/'' = - 1"
    using assms by (simp add: rfind_notin)
  show ?thesis
    by (simp add: splitext_def d s splitext_scan.simps)
qed

lemma MUSIC_EXTS_shape:
  assumes "e \<in> MUSIC_EXTS"
  shows "\<exists>r. e = CHR ''.'' # r \<and> CHR ''.'' \<notin> set r \<and> CHR ''/'' \<notin> set r"
  using assms by (auto simp: MUSIC_EXTS_def)

lemma dotfile_shape:
  assumes "lower name \<in> MUSIC_EXTS"
  shows "\<exists>r. name = CHR ''.'' # r \<and> CHR ''.'' \<notin> set r \<and> CHR ''/'' \<notin> set r"
proof -
  obtain r where r: "lower name = CHR ''.'' # r" "CHR ''.'' \<notin> set r" "CHR ''/'' \<notin> set r"
    using MUSIC_EXTS_shape [OF assms] by blast
  from r(1) obtain c cs where n: "name = c # cs" "char_lower c = CHR ''.''" "lower cs = r"
    by (cases name) (auto simp: lower_def)
  then have "c = CHR ''.''" by (simp add: char_lower_dot)
  moreover have "CHR ''.'' \<notin> set cs" "CHR ''/'' \<notin> set cs"
    using r n(3) lower_dot_mem [of cs] lower_slash_mem [of cs] by auto
  ultimately show ?thesis using n(1) by blast
qed

lemma empty_not_music: "'''' \<notin> MUSIC_EXTS"
  by (simp add: MUSIC_EXTS_def)

section \<open>Library scanner: properties\<close>

text \<open>
  Claim C10. A file whose whole name is one leading dot followed by an allow-listed extension
  (in any letter case, such as \<^verbatim>\<open>.mp3\<close>) has an empty extension for \<^verbatim>\<open>os.path.splitext\<close>, and the
  scanner leaves it out: the scan gives the same list with the file and without it.
\<close>

theorem dotfile_excluded:
  assumes "lower name \<in> MUSIC_EXTS"
  shows "splitext name = (name, '''') \<and>
         gather_music_files (before @ [(root, names1 @ [name] @ names2)] @ after) =
         gather_music_files (before @ [(root, names1 @ names2)] @ after)"
proof -
  obtain r where "name = CHR ''.'' # r" "CHR ''.'' \<notin> set r" "CHR ''/'' \<notin> set r"
    using dotfile_shape [OF assms] by blast
  then have s: "splitext name = (name, '''')" by (simp add: splitext_dotfile)
  then have "lower (snd (splitext name)) \<notin> MUSIC_EXTS"
    by (simp add: lower_def empty_not_music)
  then show ?thesis using s by (simp add: gather_music_files_def)
qed

theorem dotfile_excluded_witness:
  "lower ''.mp3'' \<in> MUSIC_EXTS \<and> splitext ''.mp3'' = (''.mp3'', '''') \<and>
   gather_music_files [(''/music'', [''songA.mp3'', ''.mp3'', ''notes.txt''])] = [''/music/songA.mp3''] \<and>
   gather_music_files [(''/music'', [''songA.mp3'', ''notes.txt''])] = [''/music/songA.mp3'']"
proof -
  have h: "lower ''.mp3'' \<in> MUSIC_EXTS"
    by (simp add: lower_def char_lower_def MUSIC_EXTS_def)
  have g: "gather_music_files [(''/music'', [''songA.mp3'', ''notes.txt''])] = [''/music/songA.mp3'']"
    by (simp add: gather_music_files_def splitext_def rfind_def splitext_scan.simps slice_def
        lower_def char_lower_def MUSIC_EXTS_def join_def)
  show ?thesis
    using h g dotfile_excluded [OF h, of "[]" "''/music''" "[''songA.mp3'']" "[''notes.txt'']" "[]"]
    by simp
qed

section \<open>Temp name deriver: properties\<close>

text \<open>
  Claim C3. The derived name is the MD5 hex digest of the base name without its extension,
  followed by the extension with its dot. It is a function of the base file name alone: two
  paths with the same base name get the same derived name, whatever their directories. (That
  repeated calls agree is what being a function means; that MD5 resists collisions is not
  part of the statement.)
\<close>

theorem desired_name_pure:
  "desired_name p = md5_hexdigest (fst (splitext (basename p))) @ snd (splitext (basename p)) \<and>
   (basename p = basename q \<longrightarrow> desired_name p = desired_name q) \<and>
   (CHR ''/'' \<notin> set name \<longrightarrow>
      desired_name (join d1 name) = desired_name name \<and>
      desired_name (join d1 name) = desired_name (join d2 name))"
  by (simp add: desired_name_def basename_join basename_notin split: prod.splits)

theorem desired_name_pure_witness:
  "basename ''/music/songA.mp3'' = basename ''/other/dir/songA.mp3'' \<and>
   CHR ''/'' \<notin> set ''songA.mp3'' \<and>
   desired_name ''/music/songA.mp3'' = ''8fb0aec765227888a14d5426bd526a97.mp3'' \<and>
   desired_name ''/other/dir/songA.mp3'' = ''8fb0aec765227888a14d5426bd526a97.mp3'' \<and>
   desired_name (join ''/music'' ''songA.mp3'') = desired_name (join ''/other/dir'' ''songA.mp3'')"
proof -
  have b: "basename ''/music/songA.mp3'' = ''songA.mp3''" "basename ''/other/dir/songA.mp3'' = ''songA.mp3''"
    by (simp_all add: basename_def rfind_def)
  have s: "splitext ''songA.mp3'' = (''songA'', ''.mp3'')"
    by (simp add: splitext_def rfind_def splitext_scan.simps slice_def)
  have n: "CHR ''/'' \<notin> set ''songA.mp3''" by simp
  show ?thesis
    using b s n md5_hexdigest_songA
      desired_name_pure [of "''/music/songA.mp3''" "''/other/dir/songA.mp3''" "''songA.mp3''" "''/music''" "''/other/dir''"]
    by (auto simp: join_def)
qed

section \<open>Staged copy manager: facts\<close>

text \<open>
  A digest starts with a hexadecimal digit, a scratch name with the letter t: the scratch
  path is never the derived-name path.
\<close>

lemma hex_digit_mem: "hex_digit n \<in> set ''0123456789abcdef''"
  unfolding hex_digit_def by (rule nth_mem) simp

lemma md5_hexdigest_hd:
  "\<exists>c cs. md5_hexdigest s = c # cs \<and> c \<noteq> CHR ''t'' \<and> c \<noteq> CHR ''/''"
proof -
  obtain a b c d where
    "foldl md5_block (0x67452301, 0xefcdab89, 0x98badcfe, 0x10325476)
       (map (\<lambda>blk. map le_word (chunks 4 blk)) (chunks 64 (md5_pad (map of_char s)))) = (a, b, c, d)"
    using prod_cases4 by blast
  then have "\<exists>cs. md5_hexdigest s = hex_digit (a mod 256 div 16) # cs"
    by (simp add: md5_hexdigest_def md5_digest_def le_bytes4_def hex_byte_def)
  moreover have "hex_digit (a mod 256 div 16) \<noteq> CHR ''t''" "hex_digit (a mod 256 div 16) \<noteq> CHR ''/''"
    using hex_digit_mem [of "a mod 256 div 16"] by auto
  ultimately show ?thesis by blast
qed

lemma desired_name_hd:
  "\<exists>c cs. desired_name p = c # cs \<and> c \<noteq> CHR ''t'' \<and> c \<noteq> CHR ''/''"
proof -
  obtain c cs where m: "md5_hexdigest (fst (splitext (basename p))) = c # cs"
    and c: "c \<noteq> CHR ''t''" "c \<noteq> CHR ''/''"
    using md5_hexdigest_hd by blast
  have "desired_name p =
      md5_hexdigest (fst (splitext (basename p))) @ snd (splitext (basename p))"
    by (simp add: desired_name_def split: prod.splits)
  then have "desired_name p = c # (cs @ snd (splitext (basename p)))"
    using m by simp
  then show ?thesis using c by blast
qed

lemma join_inject:
  assumes "take 1 a \<noteq> ''/''" and "take 1 b \<noteq> ''/''" and "join d a = join d b"
  shows "a = b"
  using assms by (simp add: join_def split: if_splits)

lemma scratch_neq_dest: "join d (''tmp'' @ r @ ext) \<noteq> dest_path d p"
proof
  assume eq: "join d (''tmp'' @ r @ ext) = dest_path d p"
  obtain c cs where n: "desired_name p = c # cs" and c: "c \<noteq> CHR ''t''" "c \<noteq> CHR ''/''"
    using desired_name_hd by blast
  have "take 1 (desired_name p) \<noteq> ''/''" using n c by auto
  moreover have "take 1 (''tmp'' @ r @ ext) \<noteq> ''/''" by simp
  ultimately have "''tmp'' @ r @ ext = desired_name p"
    using eq join_inject unfolding dest_path_def by blast
  then have "c = CHR ''t''" using n by simp
  then show False using c by simp
qed

lemma find_scratch:
  assumes "find (\<lambda>name. disk w name = None) (map (\<lambda>r. join d (''tmp'' @ r @ ext)) rs) = Some t"
  shows "disk w t = None \<and> t \<noteq> dest_path d p"
proof -
  from assms have "disk w t = None" and "t \<in> set (map (\<lambda>r. join d (''tmp'' @ r @ ext)) rs)"
    by (auto simp: find_Some_iff)
  then show ?thesis using scratch_neq_dest by auto
qed

lemma copy_loop_facts:
  assumes "copy_loop t bufs fault w = (r, w')" and "disk w t = Some (File c0)"
  shows "(\<forall>f \<in> set (disk w' # seen w'). f \<in> set (disk w # seen w) \<or> (\<forall>q. q \<noteq> t \<longrightarrow> f q = disk w q)) \<and>
         (\<forall>q. q \<noteq> t \<longrightarrow> disk w' q = disk w q) \<and>
         (\<exists>c. disk w' t = Some (File c)) \<and>
         (r = Return () \<longrightarrow> disk w' t = Some (File (c0 @ concat bufs))) \<and>
         r \<noteq> Pending \<and> ffplay_process w' = ffplay_process w \<and> sent w' = sent w"
  using assms
proof (induction bufs arbitrary: fault w c0)
  case Nil
  then show ?case by auto
next
  case (Cons buf bufs)
  show ?case
  proof (cases "fault = Some 0")
    case True
    then show ?thesis using Cons.prems by auto
  next
    case False
    let ?w1 = "fdst_write t buf w"
    have w1: "?w1 = put_disk ((disk w)(t := Some (File (c0 @ buf)))) w"
      using Cons.prems(2) by (simp add: fdst_write_def)
    have step: "copy_loop t bufs (map_option (\<lambda>k. k - 1) fault) ?w1 = (r, w')"
      using Cons.prems(1) False by simp
    have d1: "disk ?w1 t = Some (File (c0 @ buf))"
      by (simp add: w1 put_disk_def)
    note ih = Cons.IH [OF step d1]
    have o: "\<And>q. q \<noteq> t \<Longrightarrow> disk ?w1 q = disk w q"
      by (simp add: w1 put_disk_def)
    have s: "seen ?w1 = disk w # seen w"
      by (simp add: w1 put_disk_def)
    have p: "ffplay_process ?w1 = ffplay_process w" "sent ?w1 = sent w"
      by (simp_all add: w1 put_disk_def)
    have c1: "\<forall>f \<in> set (disk w' # seen w').
        f \<in> set (disk w # seen w) \<or> (\<forall>q. q \<noteq> t \<longrightarrow> f q = disk w q)"
    proof
      fix f assume "f \<in> set (disk w' # seen w')"
      then have "f \<in> set (disk ?w1 # seen ?w1) \<or> (\<forall>q. q \<noteq> t \<longrightarrow> f q = disk ?w1 q)"
        using ih by blast
      then show "f \<in> set (disk w # seen w) \<or> (\<forall>q. q \<noteq> t \<longrightarrow> f q = disk w q)"
        unfolding s using o by auto
    qed
    have c2: "\<forall>q. q \<noteq> t \<longrightarrow> disk w' q = disk w q" using ih o by simp
    have c3: "\<exists>c. disk w' t = Some (File c)" using ih by blast
    have c4: "r = Return () \<longrightarrow> disk w' t = Some (File (c0 @ concat (buf # bufs)))"
      using ih by simp
    have c5: "r \<noteq> Pending \<and> ffplay_process w' = ffplay_process w \<and> sent w' = sent w"
      using ih p by simp
    show ?thesis using c1 c2 c3 c4 c5 by blast
  qed
qed

section \<open>Extension case\<close>

lemma gather_music_files_mem:
  "p \<in> set (gather_music_files walk) \<longleftrightarrow>
   (\<exists>root names name. (root, names) \<in> set walk \<and> name \<in> set names \<and> p = join root name \<and>
      lower (snd (splitext name)) \<in> MUSIC_EXTS)"
  by (auto simp: gather_music_files_def)

text \<open>
  Claim C8, as the code has it. For every discovered track the lower-cased extension decides
  the allow-list test only. The staged copy is named by the digest followed by the extension
  exactly as the source file name writes it; this is the digest followed by the lower-cased
  extension only when the extension is lower-case already.
\<close>

theorem staged_name_keeps_case:
  assumes "p \<in> set (gather_music_files walk)"
    and "\<forall>(root, names) \<in> set walk. \<forall>name \<in> set names. CHR ''/'' \<notin> set name"
  shows "lower (snd (splitext (basename p))) \<in> MUSIC_EXTS \<and>
         desired_name p = md5_hexdigest (fst (splitext (basename p))) @ snd (splitext (basename p)) \<and>
         (desired_name p = md5_hexdigest (fst (splitext (basename p))) @ lower (snd (splitext (basename p)))
            \<longleftrightarrow> lower (snd (splitext (basename p))) = snd (splitext (basename p)))"
proof -
  obtain root names name where w: "(root, names) \<in> set walk" "name \<in> set names"
    and p: "p = join root name" and l: "lower (snd (splitext name)) \<in> MUSIC_EXTS"
    using assms(1) gather_music_files_mem by blast
  have "CHR ''/'' \<notin> set name" using assms(2) w by auto
  then have b: "basename p = name" using p by (simp add: basename_join)
  have d: "desired_name p = md5_hexdigest (fst (splitext (basename p))) @ snd (splitext (basename p))"
    by (simp add: desired_name_def split: prod.splits)
  show ?thesis using b l d by auto
qed

theorem staged_name_keeps_case_witness:
  "''/music/Song.MP3'' \<in> set (gather_music_files [(''/music'', [''Song.MP3'', ''notes.txt''])]) \<and>
   lower (snd (splitext (basename ''/music/Song.MP3''))) = ''.mp3'' \<and>
   desired_name ''/music/Song.MP3'' = md5_hexdigest ''Song'' @ ''.MP3''"
proof -
  have g: "gather_music_files [(''/music'', [''Song.MP3'', ''notes.txt''])] = [''/music/Song.MP3'']"
    by (simp add: gather_music_files_def splitext_def rfind_def splitext_scan.simps slice_def
        lower_def char_lower_def MUSIC_EXTS_def join_def)
  have h1: "''/music/Song.MP3'' \<in> set (gather_music_files [(''/music'', [''Song.MP3'', ''notes.txt''])])"
    by (simp add: g)
  have h2: "\<forall>(root, names) \<in> set [(''/music'', [''Song.MP3'', ''notes.txt''])].
      \<forall>name \<in> set names. CHR ''/'' \<notin> set name"
    by simp
  have b: "basename ''/music/Song.MP3'' = ''Song.MP3''"
    by (simp add: basename_def rfind_def)
  have s: "splitext ''Song.MP3'' = (''Song'', ''.MP3'')"
    by (simp add: splitext_def rfind_def splitext_scan.simps slice_def)
  have l: "lower ''.MP3'' = ''.mp3''"
    by (simp add: lower_def char_lower_def)
  show ?thesis
    using staged_name_keeps_case [OF h1 h2] h1 b s l by simp
qed

text \<open>
  Claim C8 as worded fails: \<^verbatim>\<open>Song.MP3\<close> passes the filter and is staged under a name ending
  in \<^verbatim>\<open>.MP3\<close>, not \<^verbatim>\<open>.mp3\<close>.
\<close>

theorem staged_name_lowercase_counterexample:
  "gather_music_files [(''/music'', [''Song.MP3''])] = [''/music/Song.MP3''] \<and>
   desired_name ''/music/Song.MP3'' = md5_hexdigest ''Song'' @ ''.MP3'' \<and>
   desired_name ''/music/Song.MP3'' \<noteq> md5_hexdigest ''Song'' @ lower ''.MP3''"
proof -
  have g: "gather_music_files [(''/music'', [''Song.MP3''])] = [''/music/Song.MP3'']"
    by (simp add: gather_music_files_def splitext_def rfind_def splitext_scan.simps slice_def
        lower_def char_lower_def MUSIC_EXTS_def join_def)
  have b: "basename ''/music/Song.MP3'' = ''Song.MP3''"
    by (simp add: basename_def rfind_def)
  have s: "splitext ''Song.MP3'' = (''Song'', ''.MP3'')"
    by (simp add: splitext_def rfind_def splitext_scan.simps slice_def)
  have l: "lower ''.MP3'' = ''.mp3''"
    by (simp add: lower_def char_lower_def)
  show ?thesis using g b s l by (simp add: desired_name_def)
qed

lemma NamedTemporaryFile_Return:
  assumes "NamedTemporaryFile e d ext w = (Return t, w1)"
  shows "disk w t = None \<and> t \<noteq> dest_path d q \<and>
         w1 = put_disk ((disk w)(t := Some (File ''''))) w"
  using assms find_scratch [of w d ext "candidates e" t q]
  by (auto simp: NamedTemporaryFile_def split: if_splits option.splits)

lemma NamedTemporaryFile_other:
  assumes "NamedTemporaryFile e d ext w = (r, w1)" and "\<forall>t. r \<noteq> Return t"
  shows "r = Raise OSError \<and> w1 = w"
  using assms by (auto simp: NamedTemporaryFile_def split: if_splits option.splits)

lemma os_remove_None:
  assumes "os_remove p w = (None, w')"
  shows "w' = put_disk ((disk w)(p := None)) w \<and> (\<exists>c. disk w p = Some (File c))"
  using assms by (auto simp: os_remove_def split: option.splits node.splits)

lemma os_remove_Some:
  assumes "os_remove p w = (Some x, w')"
  shows "w' = w \<and> is_OSError x \<and> (\<forall>c. disk w p \<noteq> Some (File c))"
  using assms by (auto simp: os_remove_def is_OSError_def split: option.splits node.splits)

lemma os_rename_None:
  assumes "os_rename fault src dst w = (None, w')"
  shows "\<exists>n. disk w src = Some n \<and> w' = put_disk ((disk w)(src := None, dst := Some n)) w"
  using assms by (auto simp: os_rename_def split: if_splits option.splits node.splits)

lemma os_rename_Some:
  assumes "os_rename fault src dst w = (Some x, w')"
  shows "w' = w"
  using assms by (auto simp: os_rename_def split: if_splits option.splits node.splits)

lemma copyfileobj_facts:
  assumes "copyfileobj content t fault w = (r, w')" and "disk w t = Some (File '''')"
  shows "(\<forall>f \<in> set (disk w' # seen w'). f \<in> set (disk w # seen w) \<or> (\<forall>q. q \<noteq> t \<longrightarrow> f q = disk w q)) \<and>
         (\<forall>q. q \<noteq> t \<longrightarrow> disk w' q = disk w q) \<and>
         (\<exists>c. disk w' t = Some (File c)) \<and>
         (r = Return () \<longrightarrow> disk w' t = Some (File (concat (chunks COPY_BUFSIZE content)))) \<and>
         r \<noteq> Pending \<and> ffplay_process w' = ffplay_process w \<and> sent w' = sent w"
  using copy_loop_facts [of t "chunks COPY_BUFSIZE content" fault w r w' "''''"] assms
  by (simp add: copyfileobj_def)

lemma concat_chunks: "0 < n \<Longrightarrow> concat (chunks n xs) = xs"
proof (induction n xs rule: chunks.induct)
  case (1 n xs)
  show ?case
  proof (cases "xs = []")
    case True
    then show ?thesis by (simp add: chunks.simps)
  next
    case False
    then have "concat (chunks n (drop n xs)) = drop n xs" using 1 by simp
    then show ?thesis using False 1(2) by (subst chunks.simps) simp
  qed
qed

lemma concat_chunks_COPY_BUFSIZE: "concat (chunks COPY_BUFSIZE xs) = xs"
  by (rule concat_chunks) (simp add: COPY_BUFSIZE_def)

text \<open>The steps of a successful try block.\<close>

lemma try_Return_steps:
  assumes "copy_to_temp_md5_try e d ext path dest w = (Return x, tp, w')"
  shows "\<exists>t w1 c w2 w3.
     NamedTemporaryFile e d ext w = (Return t, w1) \<and>
     open_rb path w1 = Return c \<and>
     copyfileobj c t (copy_fault e) w1 = (Return (), w2) \<and>
     (if os_path_exists w2 dest then os_remove dest w2 else (None, w2)) = (None, w3) \<and>
     os_rename (rename_fault e) t dest w3 = (None, w') \<and> tp = Some t \<and> x = dest"
  using assms unfolding copy_to_temp_md5_try_def
  by (auto split: prod.splits res.splits option.splits)

lemma try_success:
  assumes "copy_to_temp_md5_try e d ext path (dest_path d q) w = (Return x, tp, w')"
  shows "x = dest_path d q \<and> sent w' = sent w \<and> ffplay_process w' = ffplay_process w \<and>
         (\<exists>c. disk w' = (disk w)(dest_path d q := Some (File c)) \<and>
              (\<forall>c0. disk w path = Some (File c0) \<longrightarrow> c = c0))"
proof -
  let ?dest = "dest_path d q"
  obtain t w1 c w2 w3 where
    n: "NamedTemporaryFile e d ext w = (Return t, w1)" and
    o: "open_rb path w1 = Return c" and
    cp: "copyfileobj c t (copy_fault e) w1 = (Return (), w2)" and
    rm: "(if os_path_exists w2 ?dest then os_remove ?dest w2 else (None, w2)) = (None, w3)" and
    rn: "os_rename (rename_fault e) t ?dest w3 = (None, w')" and
    x: "x = ?dest"
    using try_Return_steps [OF assms] by blast
  have t: "disk w t = None" "t \<noteq> ?dest" and w1: "w1 = put_disk ((disk w)(t := Some (File ''''))) w"
    using NamedTemporaryFile_Return [OF n, of q] by auto
  have d1: "disk w1 = (disk w)(t := Some (File ''''))" and f1: "sent w1 = sent w" "ffplay_process w1 = ffplay_process w"
    by (simp_all add: w1 put_disk_def)
  have src: "\<forall>c0. disk w path = Some (File c0) \<longrightarrow> c = c0"
    using o t(1) by (auto simp: open_rb_def d1 split: if_splits)
  have t1: "disk w1 t = Some (File '''')" by (simp add: d1)
  note cf = copyfileobj_facts [OF cp t1]
  have d2: "disk w2 = (disk w)(t := Some (File c))"
  proof
    fix p show "disk w2 p = ((disk w)(t := Some (File c))) p"
      using cf d1 by (cases "p = t") (auto simp: concat_chunks_COPY_BUFSIZE)
  qed
  have f2: "sent w2 = sent w" "ffplay_process w2 = ffplay_process w" using cf f1 by simp_all
  have d3: "disk w3 = (disk w)(t := Some (File c), ?dest := None)" and
    f3: "sent w3 = sent w" "ffplay_process w3 = ffplay_process w"
  proof -
    show "disk w3 = (disk w)(t := Some (File c), ?dest := None)"
    proof (cases "os_path_exists w2 ?dest")
      case True
      then have "os_remove ?dest w2 = (None, w3)" using rm by simp
      then have "w3 = put_disk ((disk w2)(?dest := None)) w2" using os_remove_None by blast
      then show ?thesis by (simp add: put_disk_def d2)
    next
      case False
      then have "w3 = w2" and "disk w2 ?dest = None"
        using rm by (auto simp: os_path_exists_def split: option.splits)
      then show ?thesis using d2 t(2) by (auto simp: fun_eq_iff)
    qed
    show "sent w3 = sent w" "ffplay_process w3 = ffplay_process w"
      using rm f2 os_remove_None [of ?dest w2 w3]
      by (auto simp: put_disk_def split: if_splits)
  qed
  obtain nd where nd: "disk w3 t = Some nd" and w': "w' = put_disk ((disk w3)(t := None, ?dest := Some nd)) w3"
    using os_rename_None [OF rn] by blast
  have "nd = File c" using nd d3 t(2) by simp
  then have d4: "disk w' = (disk w)(?dest := Some (File c))"
    using w' d3 t by (auto simp: put_disk_def fun_eq_iff)
  have f4: "sent w' = sent w" "ffplay_process w' = ffplay_process w"
    using w' f3 by (simp_all add: put_disk_def)
  show ?thesis using x d4 f4 src by blast
qed

lemma open_rb_not_Pending: "open_rb p w \<noteq> Pending"
  by (simp add: open_rb_def split: option.splits node.splits)

text \<open>
  Watching the derived-name path from the start of a call: until the last step it holds what
  it held before the call, or nothing.
\<close>

lemma try_history:
  assumes "copy_to_temp_md5_try e d ext path (dest_path d q) w = (r, tp, w')" and "seen w = []"
  shows "(\<forall>f \<in> set (seen w'). f (dest_path d q) = disk w (dest_path d q) \<or> f (dest_path d q) = None) \<and>
         ((\<exists>x. r = Return x) \<or> disk w' (dest_path d q) = disk w (dest_path d q) \<or>
            disk w' (dest_path d q) = None) \<and>
         (\<forall>t. tp = Some t \<longrightarrow> t \<noteq> dest_path d q) \<and> r \<noteq> Pending"
proof -
  let ?dest = "dest_path d q"
  let ?Q = "\<lambda>f. f ?dest = disk w ?dest \<or> f ?dest = None"
  let ?I = "\<lambda>u. \<forall>f \<in> set (disk u # seen u). ?Q f"
  have I0: "?I w" using assms(2) by simp
  obtain r1 w1 where n: "NamedTemporaryFile e d ext w = (r1, w1)"
    by (cases "NamedTemporaryFile e d ext w")
  show ?thesis
  proof (cases "\<exists>t. r1 = Return t")
    case False
    then have "r1 = Raise OSError" "w1 = w" using NamedTemporaryFile_other [OF n] by auto
    then have "r = Raise OSError \<and> tp = None \<and> w' = w"
      using assms(1) n unfolding copy_to_temp_md5_try_def by simp
    then show ?thesis using I0 assms(2) by simp
  next
    case True
    then obtain t where r1: "r1 = Return t" ..
    have t: "disk w t = None" "t \<noteq> ?dest" and w1: "w1 = put_disk ((disk w)(t := Some (File ''''))) w"
      using NamedTemporaryFile_Return [of e d ext w t w1 q] n r1 by auto
    have I1: "?I w1" using I0 t(2) by (simp add: w1 put_disk_def)
    have t1: "disk w1 t = Some (File '''')" by (simp add: w1 put_disk_def)
    have o1: "disk w1 ?dest = disk w ?dest" using t(2) by (simp add: w1 put_disk_def)
    show ?thesis
    proof (cases "open_rb path w1")
      case Pending
      then show ?thesis using open_rb_not_Pending by blast
    next
      case (Raise x)
      then have "r = Raise x \<and> tp = None \<and> w' = w1"
        using assms(1) n r1 unfolding copy_to_temp_md5_try_def by simp
      then show ?thesis using I1 by simp
    next
      case (Return c)
      obtain r2 w2 where cp: "copyfileobj c t (copy_fault e) w1 = (r2, w2)"
        by (cases "copyfileobj c t (copy_fault e) w1")
      note cf = copyfileobj_facts [OF cp t1]
      have I2: "?I w2"
      proof
        fix f assume "f \<in> set (disk w2 # seen w2)"
        then have "f \<in> set (disk w1 # seen w1) \<or> (\<forall>p. p \<noteq> t \<longrightarrow> f p = disk w1 p)"
          using cf by blast
        then show "?Q f" using I1 o1 t(2) by auto
      qed
      show ?thesis
      proof (cases r2)
        case Pending
        then show ?thesis using cf by simp
      next
        case (Raise x)
        then have "r = Raise x \<and> tp = None \<and> w' = w2"
          using assms(1) n r1 Return cp unfolding copy_to_temp_md5_try_def by simp
        then show ?thesis using I2 by simp
      next
        case (Return u)
        note r2 = this
        obtain rm3 w3 where rm: "(if os_path_exists w2 ?dest then os_remove ?dest w2 else (None, w2)) = (rm3, w3)"
          by (cases "if os_path_exists w2 ?dest then os_remove ?dest w2 else (None, w2)")
        show ?thesis
        proof (cases rm3)
          case (Some x)
          then have "w3 = w2" using rm os_remove_Some [of ?dest w2 x w3] by (auto split: if_splits)
          moreover have "r = Raise x \<and> tp = Some t \<and> w' = w3"
            using assms(1) n r1 \<open>open_rb path w1 = Return c\<close> cp r2 rm Some
            unfolding copy_to_temp_md5_try_def by simp
          ultimately show ?thesis using I2 t(2) by simp
        next
          case None
          have w3: "w3 = w2 \<or> w3 = put_disk ((disk w2)(?dest := None)) w2"
            using rm None os_remove_None [of ?dest w2 w3] by (auto split: if_splits)
          have I3: "?I w3" using w3 I2 by (auto simp: put_disk_def)
          obtain rn4 w4 where rn: "os_rename (rename_fault e) t ?dest w3 = (rn4, w4)"
            by (cases "os_rename (rename_fault e) t ?dest w3")
          have res: "(r, tp, w') = (case rn4 of Some x \<Rightarrow> (Raise x, Some t, w4)
                                    | None \<Rightarrow> (Return ?dest, Some t, w4))"
            using assms(1) n r1 \<open>open_rb path w1 = Return c\<close> cp r2 rm None rn
            unfolding copy_to_temp_md5_try_def by simp
          show ?thesis
          proof (cases rn4)
            case (Some x)
            then have "w4 = w3" using rn os_rename_Some by blast
            then show ?thesis using res Some I3 t(2) by simp
          next
            case None
            then obtain nd where "w4 = put_disk ((disk w3)(t := None, ?dest := Some nd)) w3"
              using rn os_rename_None by blast
            then have "seen w4 = disk w3 # seen w3" by (simp add: put_disk_def)
            then show ?thesis using res None I3 t(2) by simp
          qed
        qed
      qed
    qed
  qed
qed

lemma stage_handler:
  assumes "stage = ff_copy_to_temp_md5 \<or> stage = tx_copy_to_temp_md5"
    and "stage e d path w = (r, w')"
    and "copy_to_temp_md5_try e d (snd (splitext (basename path))) path (dest_path d path) w = (r0, tp, w1)"
  shows "(\<forall>x. r0 = Return x \<longrightarrow> r = Return (Some x) \<and> w' = w1) \<and>
         (r0 = Pending \<longrightarrow> r = Pending \<and> w' = w1) \<and>
         (\<forall>x. r0 = Raise x \<longrightarrow> (\<forall>y. r \<noteq> Return (Some y)) \<and>
            (w' = w1 \<or> (\<exists>t. tp = Some t \<and> w' = put_disk ((disk w1)(t := None)) w1)))"
  using assms os_remove_None os_remove_Some
  by (cases r0) (auto simp: ff_copy_to_temp_md5_def tx_copy_to_temp_md5_def Let_def
      split: if_splits option.splits prod.splits, (blast+)?)

lemma stage_success:
  assumes "stage = ff_copy_to_temp_md5 \<or> stage = tx_copy_to_temp_md5"
    and "stage e d path w = (Return (Some x), w')"
  shows "x = dest_path d path \<and> sent w' = sent w \<and> ffplay_process w' = ffplay_process w \<and>
         (\<exists>c. disk w' = (disk w)(dest_path d path := Some (File c)) \<and>
              (\<forall>c0. disk w path = Some (File c0) \<longrightarrow> c = c0))"
proof -
  obtain r0 tp w1 where
    t: "copy_to_temp_md5_try e d (snd (splitext (basename path))) path (dest_path d path) w = (r0, tp, w1)"
    using prod_cases3 by blast
  have "r0 = Return x \<and> w' = w1"
    using stage_handler [OF assms(1) assms(2) t] by (cases r0) auto
  then show ?thesis using try_success [of e d _ path path w x tp w1] t by simp
qed

lemma stage_history:
  assumes "stage = ff_copy_to_temp_md5 \<or> stage = tx_copy_to_temp_md5"
    and "stage e d path w = (r, w')" and "seen w = []"
  shows "(\<forall>f \<in> set (seen w'). f (dest_path d path) = disk w (dest_path d path) \<or> f (dest_path d path) = None) \<and>
         ((\<exists>x. r = Return (Some x)) \<or> disk w' (dest_path d path) = disk w (dest_path d path) \<or>
            disk w' (dest_path d path) = None)"
proof -
  let ?dest = "dest_path d path"
  obtain r0 tp w1 where
    t: "copy_to_temp_md5_try e d (snd (splitext (basename path))) path ?dest w = (r0, tp, w1)"
    using prod_cases3 by blast
  note h = try_history [OF t assms(3)]
  note s = stage_handler [OF assms(1) assms(2) t]
  show ?thesis
  proof (cases r0)
    case Pending
    then show ?thesis using h by simp
  next
    case (Return x)
    then show ?thesis using h s by simp
  next
    case (Raise x)
    then have q: "disk w1 ?dest = disk w ?dest \<or> disk w1 ?dest = None" using h by auto
    have "w' = w1 \<or> (\<exists>t. tp = Some t \<and> w' = put_disk ((disk w1)(t := None)) w1)"
      using s Raise by blast
    then show ?thesis
    proof
      assume "w' = w1"
      then show ?thesis using h q by simp
    next
      assume "\<exists>t. tp = Some t \<and> w' = put_disk ((disk w1)(t := None)) w1"
      then obtain t where tp: "tp = Some t" and w': "w' = put_disk ((disk w1)(t := None)) w1" by blast
      have "t \<noteq> ?dest" using h tp by simp
      then show ?thesis using h q w' by (auto simp: put_disk_def)
    qed
  qed
qed

lemma copy_loop_result:
  "fst (copy_loop t bufs fault w) = Return () \<or> fst (copy_loop t bufs fault w) = Raise OSError"
  by (induction bufs arbitrary: fault w) auto

lemma open_rb_result:
  "(\<exists>c. open_rb p w = Return c) \<or> open_rb p w = Raise OSError \<or> open_rb p w = Raise FileNotFoundError"
  by (simp add: open_rb_def split: option.splits node.splits)

lemma os_rename_Some_exn:
  assumes "os_rename fault src dst w = (Some x, w')"
  shows "is_OSError x"
  using assms by (auto simp: os_rename_def is_OSError_def split: if_splits option.splits node.splits)

text \<open>The ways in which the try block raises.\<close>

lemma try_Raise_steps:
  assumes "copy_to_temp_md5_try e d ext path dest w = (Raise x, tp, w')"
  shows "(tp = None \<and> NamedTemporaryFile e d ext w = (Raise x, w')) \<or>
     (\<exists>t. tp = None \<and> NamedTemporaryFile e d ext w = (Return t, w') \<and> open_rb path w' = Raise x) \<or>
     (\<exists>t w1 c. tp = None \<and> NamedTemporaryFile e d ext w = (Return t, w1) \<and>
         open_rb path w1 = Return c \<and> copyfileobj c t (copy_fault e) w1 = (Raise x, w')) \<or>
     (\<exists>t w1 c w2 w3. tp = Some t \<and> NamedTemporaryFile e d ext w = (Return t, w1) \<and>
         open_rb path w1 = Return c \<and> copyfileobj c t (copy_fault e) w1 = (Return (), w2) \<and>
         ((os_path_exists w2 dest \<and> os_remove dest w2 = (Some x, w')) \<or>
          ((if os_path_exists w2 dest then os_remove dest w2 else (None, w2)) = (None, w3) \<and>
           os_rename (rename_fault e) t dest w3 = (Some x, w'))))"
  using assms unfolding copy_to_temp_md5_try_def
  by (auto split: prod.splits res.splits option.splits if_splits)

lemma try_Raise_facts:
  assumes "copy_to_temp_md5_try e d ext path (dest_path d q) w = (Raise x, tp, w')"
  shows "is_OSError x \<and> (\<forall>t. tp = Some t \<longrightarrow> (\<exists>c. disk w' t = Some (File c)))"
proof -
  let ?dest = "dest_path d q"
  from try_Raise_steps [OF assms]
  have "(tp = None \<and> NamedTemporaryFile e d ext w = (Raise x, w')) \<or>
     (\<exists>t. tp = None \<and> NamedTemporaryFile e d ext w = (Return t, w') \<and> open_rb path w' = Raise x) \<or>
     (\<exists>t w1 c. tp = None \<and> NamedTemporaryFile e d ext w = (Return t, w1) \<and>
         open_rb path w1 = Return c \<and> copyfileobj c t (copy_fault e) w1 = (Raise x, w')) \<or>
     (\<exists>t w1 c w2 w3. tp = Some t \<and> NamedTemporaryFile e d ext w = (Return t, w1) \<and>
         open_rb path w1 = Return c \<and> copyfileobj c t (copy_fault e) w1 = (Return (), w2) \<and>
         ((os_path_exists w2 ?dest \<and> os_remove ?dest w2 = (Some x, w')) \<or>
          ((if os_path_exists w2 ?dest then os_remove ?dest w2 else (None, w2)) = (None, w3) \<and>
           os_rename (rename_fault e) t ?dest w3 = (Some x, w'))))" .
  then consider
    (create) "tp = None \<and> NamedTemporaryFile e d ext w = (Raise x, w')"
  | (source) t where "tp = None \<and> NamedTemporaryFile e d ext w = (Return t, w') \<and> open_rb path w' = Raise x"
  | (copy) t w1 c where "tp = None \<and> NamedTemporaryFile e d ext w = (Return t, w1) \<and>
      open_rb path w1 = Return c \<and> copyfileobj c t (copy_fault e) w1 = (Raise x, w')"
  | (remove) t w1 c w2 where "tp = Some t \<and> NamedTemporaryFile e d ext w = (Return t, w1) \<and>
      copyfileobj c t (copy_fault e) w1 = (Return (), w2) \<and>
      os_path_exists w2 ?dest \<and> os_remove ?dest w2 = (Some x, w')"
  | (rename) t w1 c w2 w3 where "tp = Some t \<and> NamedTemporaryFile e d ext w = (Return t, w1) \<and>
      copyfileobj c t (copy_fault e) w1 = (Return (), w2) \<and>
      (if os_path_exists w2 ?dest then os_remove ?dest w2 else (None, w2)) = (None, w3) \<and>
      os_rename (rename_fault e) t ?dest w3 = (Some x, w')"
    by blast
  then show ?thesis
  proof cases
    case create
    then have "x = OSError" using NamedTemporaryFile_other [of e d ext w "Raise x" w'] by simp
    then show ?thesis using create by (simp add: is_OSError_def)
  next
    case source
    then show ?thesis using open_rb_result [of path w'] by (auto simp: is_OSError_def)
  next
    case copy
    then have "x = OSError"
      using copy_loop_result [of t "chunks COPY_BUFSIZE c" "copy_fault e" w1]
      by (simp add: copyfileobj_def)
    then show ?thesis using copy by (simp add: is_OSError_def)
  next
    case remove
    then have n: "NamedTemporaryFile e d ext w = (Return t, w1)"
      and cp: "copyfileobj c t (copy_fault e) w1 = (Return (), w2)"
      and rm: "os_remove ?dest w2 = (Some x, w')" and tp: "tp = Some t"
      by simp_all
    have t: "t \<noteq> ?dest" "disk w1 t = Some (File [])"
      using NamedTemporaryFile_Return [OF n, of q] by (auto simp: put_disk_def)
    have "\<exists>c. disk w2 t = Some (File c)" using copyfileobj_facts [OF cp t(2)] by blast
    then show ?thesis using tp os_remove_Some [OF rm] by auto
  next
    case rename
    then have n: "NamedTemporaryFile e d ext w = (Return t, w1)"
      and cp: "copyfileobj c t (copy_fault e) w1 = (Return (), w2)"
      and rm: "(if os_path_exists w2 ?dest then os_remove ?dest w2 else (None, w2)) = (None, w3)"
      and rn: "os_rename (rename_fault e) t ?dest w3 = (Some x, w')" and tp: "tp = Some t"
      by simp_all
    have t: "t \<noteq> ?dest" "disk w1 t = Some (File [])"
      using NamedTemporaryFile_Return [OF n, of q] by (auto simp: put_disk_def)
    have c2: "\<exists>c. disk w2 t = Some (File c)" using copyfileobj_facts [OF cp t(2)] by blast
    have "w3 = w2 \<or> w3 = put_disk ((disk w2)(?dest := None)) w2"
      using rm os_remove_None [of ?dest w2 w3] by (auto split: if_splits)
    then have "\<exists>c. disk w3 t = Some (File c)" using c2 t(1) by (auto simp: put_disk_def)
    then show ?thesis using tp os_rename_Some [OF rn] os_rename_Some_exn [OF rn]
      by auto
  qed
qed

lemma try_not_Pending:
  "fst (copy_to_temp_md5_try e d ext path dest w) \<noteq> Pending"
proof -
  have n: "\<And>r w1. NamedTemporaryFile e d ext w = (r, w1) \<Longrightarrow> r \<noteq> Pending"
    by (auto simp: NamedTemporaryFile_def split: if_splits option.splits)
  have c: "\<And>c t w1 w2. copyfileobj c t (copy_fault e) w1 \<noteq> (Pending, w2)"
    using copy_loop_result by (metis copyfileobj_def fst_conv res.distinct(3) res.distinct(5))
  show ?thesis
    using n c open_rb_not_Pending unfolding copy_to_temp_md5_try_def
    by (auto split: prod.splits res.splits option.splits if_splits)
qed

lemma is_OSError_Exception: "is_OSError x \<Longrightarrow> is_Exception x"
  by (auto simp: is_OSError_def is_Exception_def)

text \<open>The ffplay script's staging always returns; the Termux script's may raise.\<close>

lemma ff_copy_returns: "\<exists>p. fst (ff_copy_to_temp_md5 e d path w) = Return p"
proof -
  obtain r0 tp w1 where
    t: "copy_to_temp_md5_try e d (snd (splitext (basename path))) path (dest_path d path) w = (r0, tp, w1)"
    using prod_cases3 by blast
  show ?thesis
  proof (cases r0)
    case Pending
    then show ?thesis using try_not_Pending [of e d "snd (splitext (basename path))" path "dest_path d path" w] t by simp
  next
    case (Return x)
    then show ?thesis using t by (simp add: ff_copy_to_temp_md5_def)
  next
    case (Raise x)
    then have f: "is_Exception x" "\<forall>t. tp = Some t \<longrightarrow> (\<exists>c. disk w1 t = Some (File c))"
      using try_Raise_facts [of e d _ path path w x tp w1] t is_OSError_Exception by auto
    show ?thesis
    proof (cases tp)
      case None
      then show ?thesis using t Raise f by (simp add: ff_copy_to_temp_md5_def)
    next
      case (Some u)
      then obtain c where "disk w1 u = Some (File c)" using f by blast
      then show ?thesis using t Raise f Some
        by (simp add: ff_copy_to_temp_md5_def os_path_exists_def os_remove_def)
    qed
  qed
qed

lemma tx_copy_not_Pending: "fst (tx_copy_to_temp_md5 e d path w) \<noteq> Pending"
proof -
  obtain r0 tp w1 where
    t: "copy_to_temp_md5_try e d (snd (splitext (basename path))) path (dest_path d path) w = (r0, tp, w1)"
    using prod_cases3 by blast
  have "r0 \<noteq> Pending"
    using try_not_Pending [of e d "snd (splitext (basename path))" path "dest_path d path" w] t by simp
  then show ?thesis using t
    by (cases r0) (auto simp: tx_copy_to_temp_md5_def split: option.splits prod.splits)
qed

section \<open>Playback loop: facts\<close>

lemma finally_remove_facts:
  assumes "finally_remove p r w = (r', w')"
    and "disk w p = None \<or> (\<exists>c. disk w p = Some (File c))"
  shows "r' = r \<and> disk w' p = None \<and> sent w' = sent w \<and> ffplay_process w' = ffplay_process w"
  using assms
  by (auto simp: finally_remove_def os_remove_def put_disk_def is_OSError_def
      split: option.splits node.splits)

lemma staged_file_gone_facts:
  "(disk (staged_file_gone g p w) p = None \<or> disk (staged_file_gone g p w) p = disk w p) \<and>
   sent (staged_file_gone g p w) = sent w \<and>
   ffplay_process (staged_file_gone g p w) = ffplay_process w"
  by (simp add: staged_file_gone_def put_disk_def)

lemma cleanup_ffplay_facts:
  "disk (cleanup_ffplay w) = disk w \<and> seen (cleanup_ffplay w) = seen w \<and>
   sent (cleanup_ffplay w) = sent w @
     (case ffplay_process w of
        Some (Alive graceful) \<Rightarrow> [Terminate, Wait_timeout 2] @ (if graceful then [] else [Kill])
      | _ \<Rightarrow> []) \<and>
   (ffplay_process w \<noteq> Some Ended \<longrightarrow> ffplay_process (cleanup_ffplay w) = None)"
  by (simp add: cleanup_ffplay_def Let_def split: option.splits proc.splits)

lemma cleanup_ffplay_None: "ffplay_process w = None \<Longrightarrow> cleanup_ffplay w = w"
  by (simp add: cleanup_ffplay_def)

lemma ff_play_file_facts:
  assumes "ff_play_file run p w = (r, w')"
  shows "disk w' = disk w \<and> seen w' = seen w \<and> ffplay_process w' = None \<and> r \<noteq> Pending \<and>
         (\<forall>rc. run = Exits rc \<longrightarrow> r = Return (rc = 0) \<and> sent w' = sent w @ [Popen p]) \<and>
         (\<forall>x. run = Spawn_fails x \<and> is_Exception x \<longrightarrow> r = Return False \<and> sent w' = sent w) \<and>
         (\<forall>pr. run = Interrupted pr \<longrightarrow> r = Raise KeyboardInterrupt \<and>
            sent w' = sent w @ [Popen p] @
              (case pr of Alive graceful \<Rightarrow> [Terminate, Wait_timeout 2] @ (if graceful then [] else [Kill])
                        | Ended \<Rightarrow> []))"
  using assms
  by (cases run)
    (auto simp: ff_play_file_def ff_play_file_except_def cleanup_ffplay_def Let_def is_Exception_def
      split: if_splits option.splits proc.splits)

text \<open>One round of the ffplay script's loop.\<close>

lemma ff_iteration_facts:
  assumes "ff_iteration d ev song w = (r, w')"
  shows "\<forall>p w1. ff_copy_to_temp_md5 (ff_stage ev) d song w = (Return (Some p), w1) \<longrightarrow>
           disk w' p = None \<and>
           (\<forall>rc. ff_run ev = Exits rc \<longrightarrow> r = Return () \<and> sent w' = sent w @ [Popen p]) \<and>
           (\<forall>x. ff_run ev = Spawn_fails x \<and> is_Exception x \<longrightarrow> r = Return () \<and> sent w' = sent w) \<and>
           (\<forall>pr. ff_run ev = Interrupted pr \<longrightarrow> r = Raise KeyboardInterrupt \<and> ffplay_process w' = None \<and>
              sent w' = sent w @ [Popen p] @
                (case pr of Alive graceful \<Rightarrow> [Terminate, Wait_timeout 2] @ (if graceful then [] else [Kill])
                          | Ended \<Rightarrow> []))"
    and "\<forall>w1. ff_copy_to_temp_md5 (ff_stage ev) d song w = (Return None, w1) \<longrightarrow> r = Return () \<and> w' = w1"
proof -
  obtain o1 w1 where st: "ff_copy_to_temp_md5 (ff_stage ev) d song w = (Return o1, w1)"
    using ff_copy_returns [of "ff_stage ev" d song w]
    by (cases "ff_copy_to_temp_md5 (ff_stage ev) d song w") auto
  show c3: "\<forall>w1. ff_copy_to_temp_md5 (ff_stage ev) d song w = (Return None, w1) \<longrightarrow> r = Return () \<and> w' = w1"
    using assms by (auto simp: ff_iteration_def)
  have some: "\<forall>p. o1 = Some p \<longrightarrow>
           r \<noteq> Pending \<and> ffplay_process w' = None \<and> disk w' p = None \<and>
           (\<forall>rc. ff_run ev = Exits rc \<longrightarrow> r = Return () \<and> sent w' = sent w @ [Popen p]) \<and>
           (\<forall>x. ff_run ev = Spawn_fails x \<and> is_Exception x \<longrightarrow> r = Return () \<and> sent w' = sent w) \<and>
           (\<forall>pr. ff_run ev = Interrupted pr \<longrightarrow> r = Raise KeyboardInterrupt \<and>
              sent w' = sent w @ [Popen p] @
                (case pr of Alive graceful \<Rightarrow> [Terminate, Wait_timeout 2] @ (if graceful then [] else [Kill])
                          | Ended \<Rightarrow> []))"
  proof (intro allI impI)
    fix p assume o1: "o1 = Some p"
    have s: "sent w1 = sent w" and f: "\<exists>c. disk w1 p = Some (File c)"
      using stage_success [of ff_copy_to_temp_md5 "ff_stage ev" d song w p w1] st o1 by auto
    obtain pl w2 where pl: "ff_play_file (ff_run ev) p w1 = (pl, w2)"
      by (cases "ff_play_file (ff_run ev) p w1")
    note pf = ff_play_file_facts [OF pl]
    let ?w3 = "staged_file_gone (ff_gone ev) p w2"
    let ?r = "case pl of Return success \<Rightarrow> Return () | Raise x \<Rightarrow> Raise x | Pending \<Rightarrow> Pending"
    have fr: "finally_remove p ?r ?w3 = (r, w')"
      using assms st o1 pl by (simp add: ff_iteration_def)
    have d3: "disk ?w3 p = None \<or> (\<exists>c. disk ?w3 p = Some (File c))"
      using staged_file_gone_facts [of "ff_gone ev" p w2] pf f by auto
    note ff = finally_remove_facts [OF fr d3]
    have g: "sent ?w3 = sent w2" "ffplay_process ?w3 = ffplay_process w2"
      using staged_file_gone_facts [of "ff_gone ev" p w2] by simp_all
    show "r \<noteq> Pending \<and> ffplay_process w' = None \<and> disk w' p = None \<and>
           (\<forall>rc. ff_run ev = Exits rc \<longrightarrow> r = Return () \<and> sent w' = sent w @ [Popen p]) \<and>
           (\<forall>x. ff_run ev = Spawn_fails x \<and> is_Exception x \<longrightarrow> r = Return () \<and> sent w' = sent w) \<and>
           (\<forall>pr. ff_run ev = Interrupted pr \<longrightarrow> r = Raise KeyboardInterrupt \<and>
              sent w' = sent w @ [Popen p] @
                (case pr of Alive graceful \<Rightarrow> [Terminate, Wait_timeout 2] @ (if graceful then [] else [Kill])
                          | Ended \<Rightarrow> []))"
      using ff g pf s by (cases pl) auto
  qed
  show "\<forall>p w1. ff_copy_to_temp_md5 (ff_stage ev) d song w = (Return (Some p), w1) \<longrightarrow>
           disk w' p = None \<and>
           (\<forall>rc. ff_run ev = Exits rc \<longrightarrow> r = Return () \<and> sent w' = sent w @ [Popen p]) \<and>
           (\<forall>x. ff_run ev = Spawn_fails x \<and> is_Exception x \<longrightarrow> r = Return () \<and> sent w' = sent w) \<and>
           (\<forall>pr. ff_run ev = Interrupted pr \<longrightarrow> r = Raise KeyboardInterrupt \<and> ffplay_process w' = None \<and>
              sent w' = sent w @ [Popen p] @
                (case pr of Alive graceful \<Rightarrow> [Terminate, Wait_timeout 2] @ (if graceful then [] else [Kill])
                          | Ended \<Rightarrow> []))"
    using some st by auto
qed

lemma ff_iteration_benign:
  assumes "ff_benign ev"
  shows "fst (ff_iteration d ev song w) = Return ()"
proof -
  obtain r w' where i: "ff_iteration d ev song w = (r, w')" by (cases "ff_iteration d ev song w")
  obtain o1 w1 where st: "ff_copy_to_temp_md5 (ff_stage ev) d song w = (Return o1, w1)"
    using ff_copy_returns [of "ff_stage ev" d song w]
    by (cases "ff_copy_to_temp_md5 (ff_stage ev) d song w") auto
  have "r = Return ()"
  proof (cases o1)
    case None
    then show ?thesis using ff_iteration_facts(2) [OF i] st by simp
  next
    case (Some p)
    then show ?thesis using ff_iteration_facts(1) [OF i] st assms
      by (cases "ff_run ev") (auto simp: ff_benign_def)
  qed
  then show ?thesis using i by simp
qed

lemma ff_for_benign:
  assumes "\<forall>ev \<in> set evs. ff_benign ev"
  shows "fst (ff_for d evs songs w) = Return () \<or> fst (ff_for d evs songs w) = Pending"
  using assms
proof (induction d evs songs w rule: ff_for.induct)
  case (3 d ev evs song songs w)
  obtain r w1 where i: "ff_iteration d ev song w = (r, w1)" by (cases "ff_iteration d ev song w")
  have "r = Return ()" using ff_iteration_benign [of ev d song w] 3(2) i by simp
  then show ?case using 3 i by simp
qed simp_all

lemma ff_while_benign:
  assumes "\<forall>(draws, evs) \<in> set passes. \<forall>ev \<in> set evs. ff_benign ev"
  shows "fst (ff_while d passes songs w) = Pending"
  using assms
proof (induction d passes songs w rule: ff_while.induct)
  case (2 d draws evs passes songs w)
  obtain r w1 where f: "ff_for d evs (shuffle draws songs) w = (r, w1)"
    by (cases "ff_for d evs (shuffle draws songs) w")
  have "r = Return () \<or> r = Pending" using ff_for_benign [of evs d "shuffle draws songs" w] 2(2) f by auto
  then show ?case using 2 f by auto
qed simp

lemma is_playing_facts:
  assumes "is_playing ev w = (r, w')"
  shows "disk w' = disk w \<and> seen w' = seen w \<and> r \<noteq> Pending"
  using assms by (cases ev) (auto simp: is_playing_def)

lemma tx_wait_disk:
  assumes "tx_wait evs w = (r, w')"
  shows "disk w' = disk w"
  using assms
proof (induction evs w rule: tx_wait.induct)
  case (2 ev sleep_interrupted evs w)
  obtain r1 w1 where i: "is_playing ev w = (r1, w1)" by (cases "is_playing ev w")
  have d: "disk w1 = disk w" using is_playing_facts [OF i] by simp
  show ?case using 2 i d by (cases r1) (auto split: if_splits)
qed simp

lemma tx_play_file_facts:
  assumes "tx_play_file run p w = (r, w')"
  shows "disk w' = disk w \<and> r \<noteq> Pending \<and>
         (run = Run_not_found \<longrightarrow> r = Raise FileNotFoundError \<and> w' = w) \<and>
         (run = Run_interrupted \<longrightarrow> r = Raise KeyboardInterrupt) \<and>
         (\<forall>rc. run = Run_exits rc \<longrightarrow> r = Return (rc = 0))"
  using assms by (cases run) (auto simp: tx_play_file_def)

lemma tx_iteration_try_facts:
  assumes "tx_iteration_try ev p w = (r, w')" and "\<exists>c. disk w p = Some (File c)"
  shows "(disk w' p = None \<or> (\<exists>c. disk w' p = Some (File c))) \<and>
         (tx_run ev = Run_not_found \<longrightarrow> r = Raise FileNotFoundError) \<and>
         (tx_run ev = Run_interrupted \<longrightarrow> r = Raise KeyboardInterrupt)"
proof -
  obtain r1 w1 where pl: "tx_play_file (tx_run ev) p w = (r1, w1)"
    by (cases "tx_play_file (tx_run ev) p w")
  note pf = tx_play_file_facts [OF pl]
  let ?w2 = "staged_file_gone (tx_gone ev) p w1"
  have d2: "disk ?w2 p = None \<or> (\<exists>c. disk ?w2 p = Some (File c))"
    using staged_file_gone_facts [of "tx_gone ev" p w1] pf assms(2) by auto
  show ?thesis
  proof (cases r1)
    case Pending
    then show ?thesis using pf by simp
  next
    case (Raise x)
    then have "r = Raise x" "w' = ?w2" using assms(1) pl by (simp_all add: tx_iteration_try_def)
    then show ?thesis using d2 pf Raise by auto
  next
    case (Return played)
    show ?thesis
    proof (cases played)
      case True
      then have "tx_wait (tx_polls ev) ?w2 = (r, w')"
        using assms(1) pl Return by (simp add: tx_iteration_try_def)
      then have "disk w' = disk ?w2" by (rule tx_wait_disk)
      then show ?thesis using d2 pf Return by auto
    next
      case False
      then have "(case os_remove p ?w2 of (Some x, w3) \<Rightarrow> (Raise x, w3) | (None, w3) \<Rightarrow> (Return (), w3)) = (r, w')"
        using assms(1) pl Return by (simp add: tx_iteration_try_def)
      then have "disk w' p = None"
        using d2 by (auto simp: os_remove_def put_disk_def split: option.splits node.splits)
      then show ?thesis using pf Return by auto
    qed
  qed
qed

text \<open>One round of the Termux script's loop that got its staged copy.\<close>

lemma tx_iteration_facts:
  assumes "tx_iteration d ev song w = (r, w')"
    and "tx_copy_to_temp_md5 (tx_stage ev) d song w = (Return (Some p), w1)"
  shows "(r \<noteq> Pending \<longrightarrow> disk w' p = None) \<and>
         (tx_run ev = Run_not_found \<longrightarrow> r = Raise FileNotFoundError) \<and>
         (tx_run ev = Run_interrupted \<longrightarrow> r = Raise KeyboardInterrupt) \<and>
         (fst (tx_iteration_try ev p w1) \<noteq> Pending \<longrightarrow> r = fst (tx_iteration_try ev p w1))"
proof -
  have f: "\<exists>c. disk w1 p = Some (File c)"
    using stage_success [of tx_copy_to_temp_md5 "tx_stage ev" d song w p w1] assms(2) by auto
  obtain r2 w2 where t: "tx_iteration_try ev p w1 = (r2, w2)"
    by (cases "tx_iteration_try ev p w1")
  note tf = tx_iteration_try_facts [OF t f]
  show ?thesis
  proof (cases "r2 = Pending")
    case True
    then have "r = Pending" using assms t by (simp add: tx_iteration_def)
    then show ?thesis using True tf t by auto
  next
    case False
    then have "finally_remove p r2 w2 = (r, w')"
      using assms t by (cases r2) (simp_all add: tx_iteration_def)
    from finally_remove_facts [OF this] tf
    show ?thesis using t by auto
  qed
qed

section \<open>Evaluating the examples\<close>

lemmas path_eval = basename_def rfind_def splitext_def splitext_scan.simps slice_def join_def
  dest_path_def desired_name_def md5_hexdigest_songA

lemmas stage_eval = ff_copy_to_temp_md5_def tx_copy_to_temp_md5_def copy_to_temp_md5_try_def
  NamedTemporaryFile_def open_rb_def copyfileobj_def chunks.simps COPY_BUFSIZE_def fdst_write_def
  os_path_exists_def os_remove_def os_rename_def put_disk_def is_Exception_def Let_def

lemmas example_eval = music_disk_def music_world_def deleted_world_def stale_world_def no_fault_def

lemma dest_path_songA:
  "dest_path ''/tmp'' ''/music/songA.mp3'' = ''/tmp/8fb0aec765227888a14d5426bd526a97.mp3''"
  by (simp add: path_eval)

section \<open>Staged copy manager: properties\<close>

text \<open>
  Claim C4 asks that every failed staging returns \<^verbatim>\<open>None\<close> and leaves no scratch file. When
  the source can no longer be opened, or the copy fails at its first chunk, the scratch file
  exists and \<^verbatim>\<open>tmp_path\<close> is not yet assigned: the ffplay script returns \<^verbatim>\<open>None\<close> and leaves the
  scratch file in the temp directory; the Termux script raises \<^verbatim>\<open>UnboundLocalError\<close> out of its
  handler and leaves it too.
\<close>

theorem stage_failure_leaves_scratch:
  "fst (ff_copy_to_temp_md5 no_fault ''/tmp'' ''/music/songA.mp3'' deleted_world) = Return None \<and>
   disk (snd (ff_copy_to_temp_md5 no_fault ''/tmp'' ''/music/songA.mp3'' deleted_world))
     ''/tmp/tmpab12cd34.mp3'' = Some (File '''') \<and>
   fst (tx_copy_to_temp_md5 no_fault ''/tmp'' ''/music/songA.mp3'' deleted_world) = Raise UnboundLocalError \<and>
   disk (snd (tx_copy_to_temp_md5 no_fault ''/tmp'' ''/music/songA.mp3'' deleted_world))
     ''/tmp/tmpab12cd34.mp3'' = Some (File '''') \<and>
   fst (ff_copy_to_temp_md5 (no_fault\<lparr>copy_fault := Some 0\<rparr>) ''/tmp'' ''/music/songA.mp3'' music_world) = Return None \<and>
   disk (snd (ff_copy_to_temp_md5 (no_fault\<lparr>copy_fault := Some 0\<rparr>) ''/tmp'' ''/music/songA.mp3'' music_world))
     ''/tmp/tmpab12cd34.mp3'' = Some (File '''') \<and>
   fst (tx_copy_to_temp_md5 (no_fault\<lparr>copy_fault := Some 0\<rparr>) ''/tmp'' ''/music/songA.mp3'' music_world) = Raise UnboundLocalError"
  by (simp add: stage_eval example_eval path_eval)

text \<open>
  Claim C2, as the code has it. Watch the derived-name path from the start of a call of
  \<^verbatim>\<open>copy_to_temp_md5\<close> (either script) on a source file holding \<open>c\<close>. In every state before the
  last one the path holds what it held before the call, or nothing; it never holds part of the
  copy. If the call returns a path, it is the derived-name path, and the disk is the disk before
  the call with the whole of \<open>c\<close> at that path (so the scratch file is gone and nothing else
  changed). If it does not, the path holds what it held before, or nothing. Staging the same
  track again, its content now \<open>c2\<close>, leaves \<open>c2\<close> at the same path.
\<close>

theorem stage_publishes_at_rename:
  assumes "stage = ff_copy_to_temp_md5 \<or> stage = tx_copy_to_temp_md5"
    and "seen w = []" and "disk w path = Some (File c)"
    and "stage e d path w = (r, w')"
  shows "(\<forall>f \<in> set (seen w'). f (dest_path d path) = disk w (dest_path d path) \<or>
            f (dest_path d path) = None) \<and>
         (\<forall>x. r = Return (Some x) \<longrightarrow>
            x = dest_path d path \<and> disk w' = (disk w)(dest_path d path := Some (File c))) \<and>
         ((\<forall>x. r \<noteq> Return (Some x)) \<longrightarrow>
            disk w' (dest_path d path) = disk w (dest_path d path) \<or> disk w' (dest_path d path) = None) \<and>
         (\<forall>x e2 c2 x2 w2.
            r = Return (Some x) \<and>
            stage e2 d path (w'\<lparr>disk := (disk w')(path := Some (File c2))\<rparr>) = (Return (Some x2), w2) \<longrightarrow>
            x2 = x \<and> disk w2 = (disk w')(path := Some (File c2), x := Some (File c2)))"
proof -
  let ?dest = "dest_path d path"
  note h = stage_history [OF assms(1) assms(4) assms(2)]
  have h1: "\<forall>f \<in> set (seen w'). f ?dest = disk w ?dest \<or> f ?dest = None"
    using h by (rule conjunct1)
  have h2: "(\<exists>x. r = Return (Some x)) \<or> disk w' ?dest = disk w ?dest \<or> disk w' ?dest = None"
    using h by (rule conjunct2)
  have a: "\<forall>x. r = Return (Some x) \<longrightarrow> x = ?dest \<and> disk w' = (disk w)(?dest := Some (File c))"
  proof (intro allI impI)
    fix x assume "r = Return (Some x)"
    then have "stage e d path w = (Return (Some x), w')" using assms(4) by simp
    from stage_success [OF assms(1) this]
    obtain c' where x: "x = ?dest" and d: "disk w' = (disk w)(?dest := Some (File c'))"
      and c: "\<forall>c0. disk w path = Some (File c0) \<longrightarrow> c' = c0"
      by blast
    have "c' = c" using c assms(3) by blast
    then show "x = ?dest \<and> disk w' = (disk w)(?dest := Some (File c))" using x d by simp
  qed
  have b: "\<forall>x e2 c2 x2 w2.
            r = Return (Some x) \<and>
            stage e2 d path (w'\<lparr>disk := (disk w')(path := Some (File c2))\<rparr>) = (Return (Some x2), w2) \<longrightarrow>
            x2 = x \<and> disk w2 = (disk w')(path := Some (File c2), x := Some (File c2))"
  proof (intro allI impI)
    fix x e2 c2 x2 w2
    let ?u = "w'\<lparr>disk := (disk w')(path := Some (File c2))\<rparr>"
    assume s: "r = Return (Some x) \<and> stage e2 d path ?u = (Return (Some x2), w2)"
    then have x: "x = ?dest" using a by blast
    from s have "stage e2 d path ?u = (Return (Some x2), w2)" by (rule conjunct2)
    from stage_success [OF assms(1) this]
    obtain c' where x2: "x2 = ?dest" and d: "disk w2 = (disk ?u)(?dest := Some (File c'))"
      and c: "\<forall>c0. disk ?u path = Some (File c0) \<longrightarrow> c' = c0"
      by blast
    have "disk ?u path = Some (File c2)" by simp
    then have "c' = c2" using c by blast
    then show "x2 = x \<and> disk w2 = (disk w')(path := Some (File c2), x := Some (File c2))"
      using x x2 d by simp
  qed
  have g: "(\<forall>x. r \<noteq> Return (Some x)) \<longrightarrow>
            disk w' ?dest = disk w ?dest \<or> disk w' ?dest = None"
    using h2 by auto
  show ?thesis
    using h1 a g b by (intro conjI)
qed

theorem stage_publishes_at_rename_witness:
  "seen stale_world = [] \<and>
   disk stale_world ''/music/songA.mp3'' = Some (File ''RIFF'') \<and>
   fst (ff_copy_to_temp_md5 no_fault ''/tmp'' ''/music/songA.mp3'' stale_world) =
     Return (Some ''/tmp/8fb0aec765227888a14d5426bd526a97.mp3'') \<and>
   disk (snd (ff_copy_to_temp_md5 no_fault ''/tmp'' ''/music/songA.mp3'' stale_world)) =
     (disk stale_world)(''/tmp/8fb0aec765227888a14d5426bd526a97.mp3'' := Some (File ''RIFF'')) \<and>
   observed (snd (ff_copy_to_temp_md5 no_fault ''/tmp'' ''/music/songA.mp3'' stale_world))
     ''/tmp/8fb0aec765227888a14d5426bd526a97.mp3'' =
     [Some (File ''old''), Some (File ''old''), Some (File ''old''), None, Some (File ''RIFF'')]"
proof -
  have h1: "ff_copy_to_temp_md5 = ff_copy_to_temp_md5 \<or> ff_copy_to_temp_md5 = tx_copy_to_temp_md5"
    by simp
  have h2: "seen stale_world = []"
    by (simp add: example_eval)
  have h3: "disk stale_world ''/music/songA.mp3'' = Some (File ''RIFF'')"
    by (simp add: example_eval)
  have h4: "ff_copy_to_temp_md5 no_fault ''/tmp'' ''/music/songA.mp3'' stale_world =
    (fst (ff_copy_to_temp_md5 no_fault ''/tmp'' ''/music/songA.mp3'' stale_world),
     snd (ff_copy_to_temp_md5 no_fault ''/tmp'' ''/music/songA.mp3'' stale_world))"
    by simp
  have r: "fst (ff_copy_to_temp_md5 no_fault ''/tmp'' ''/music/songA.mp3'' stale_world) =
     Return (Some ''/tmp/8fb0aec765227888a14d5426bd526a97.mp3'')"
    by (simp add: stage_eval example_eval path_eval)
  have o: "disk stale_world ''/tmp/8fb0aec765227888a14d5426bd526a97.mp3'' = Some (File ''old'')"
    by (simp add: example_eval)
  note t = stage_publishes_at_rename [OF h1 h2 h3 h4]
  have a: "observed (snd (ff_copy_to_temp_md5 no_fault ''/tmp'' ''/music/songA.mp3'' stale_world))
     ''/tmp/8fb0aec765227888a14d5426bd526a97.mp3'' =
     [Some (File ''old''), Some (File ''old''), Some (File ''old''), None, Some (File ''RIFF'')]"
    by (simp add: stage_eval example_eval path_eval observed_def)
  have b: "disk (snd (ff_copy_to_temp_md5 no_fault ''/tmp'' ''/music/songA.mp3'' stale_world)) =
     (disk stale_world)(''/tmp/8fb0aec765227888a14d5426bd526a97.mp3'' := Some (File ''RIFF''))"
    using t [THEN conjunct2, THEN conjunct1, THEN spec, THEN mp, OF r, THEN conjunct2]
    unfolding dest_path_songA .
  show ?thesis using h2 h3 r a b by blast
qed

text \<open>
  Claim C2 as worded fails where it says that nothing exists at the derived-name path before
  the rename. Staging \<^verbatim>\<open>songA.mp3\<close> twice in succession: during the second call the path still
  holds the first copy while the scratch file is created and written, then holds nothing, then
  the new copy.
\<close>

theorem stage_twice_counterexample:
  "fst (ff_copy_to_temp_md5 no_fault ''/tmp'' ''/music/songA.mp3''
     (snd (ff_copy_to_temp_md5 no_fault ''/tmp'' ''/music/songA.mp3'' music_world))) =
     Return (Some ''/tmp/8fb0aec765227888a14d5426bd526a97.mp3'') \<and>
   observed (snd (ff_copy_to_temp_md5 no_fault ''/tmp'' ''/music/songA.mp3'' music_world))
     ''/tmp/8fb0aec765227888a14d5426bd526a97.mp3'' =
     [None, None, None, Some (File ''RIFF'')] \<and>
   observed (snd (ff_copy_to_temp_md5 no_fault ''/tmp'' ''/music/songA.mp3''
     (snd (ff_copy_to_temp_md5 no_fault ''/tmp'' ''/music/songA.mp3'' music_world))))
     ''/tmp/8fb0aec765227888a14d5426bd526a97.mp3'' =
     [None, None, None, Some (File ''RIFF''),
      Some (File ''RIFF''), Some (File ''RIFF''), None, Some (File ''RIFF'')]"
  by (simp add: stage_eval example_eval path_eval observed_def)

section \<open>Playback loop: properties\<close>

lemmas scan_eval = gather_music_files_def lower_def char_lower_def MUSIC_EXTS_def

lemmas loop_eval = ff_main_def tx_main_def ff_iteration_def tx_iteration_def tx_iteration_try_def
  ff_play_file_def ff_play_file_except_def tx_play_file_def is_playing_def cleanup_ffplay_def
  check_ffplay_def stop_music_def staged_file_gone_def finally_remove_def os_path_isdir_def
  is_OSError_def shuffle_def ff_example_def tx_example_def ff_exits_def tx_exits_def

lemma gather_example:
  "gather_music_files [(''/music'', [''songA.mp3'', ''notes.txt''])] = [''/music/songA.mp3'']"
  by (simp add: scan_eval path_eval)

text \<open>
  Claim C5 asks that a failed play is never fatal and that the loop goes on to the next track.
  Both scripts turn exit status 0 into \<^verbatim>\<open>True\<close> and any other into \<^verbatim>\<open>False\<close>. In the Termux
  script, when the player exits with status 1 and the staged file is already gone, the
  unguarded \<^verbatim>\<open>os.remove(temp_path)\<close> of the failure branch raises \<^verbatim>\<open>FileNotFoundError\<close>: the
  process ends with status 1 after one \<^verbatim>\<open>play\<close> command and the next pass is never played. The
  ffplay script, given the same events, plays on.
\<close>

theorem tx_play_failure_fatal:
  "fst (tx_main (tx_example [([], [tx_exits 1 True]), ([], [tx_exits 0 False])]) music_world) = Exit 1 \<and>
   sent (snd (tx_main (tx_example [([], [tx_exits 1 True]), ([], [tx_exits 0 False])]) music_world)) =
     [Termux_play ''/tmp/8fb0aec765227888a14d5426bd526a97.mp3'', Termux_stop] \<and>
   fst (ff_main (ff_example True [([], [ff_exits 1 True]), ([], [ff_exits 0 False])]) music_world) = Running \<and>
   sent (snd (ff_main (ff_example True [([], [ff_exits 1 True]), ([], [ff_exits 0 False])]) music_world)) =
     [Popen ''/tmp/8fb0aec765227888a14d5426bd526a97.mp3'', Popen ''/tmp/8fb0aec765227888a14d5426bd526a97.mp3'']"
  by (simp add: loop_eval gather_example stage_eval example_eval path_eval)

text \<open>No staged file survives a round of either loop that has ended.\<close>

lemma iteration_no_leftover:
  "(ff_copy_to_temp_md5 (ff_stage ev) d song w = (Return (Some p), w1) \<longrightarrow>
      disk (snd (ff_iteration d ev song w)) p = None) \<and>
   (tx_copy_to_temp_md5 (tx_stage tv) d song w = (Return (Some p), w2) \<and>
      fst (tx_iteration d tv song w) \<noteq> Pending \<longrightarrow>
      disk (snd (tx_iteration d tv song w)) p = None)"
proof -
  obtain r w' where i: "ff_iteration d ev song w = (r, w')" by (cases "ff_iteration d ev song w")
  obtain r2 w2' where j: "tx_iteration d tv song w = (r2, w2')" by (cases "tx_iteration d tv song w")
  show ?thesis
    using ff_iteration_facts(1) [OF i] i tx_iteration_facts [OF j] j by auto
qed

text \<open>
  Claim C1 asks that the staged file is removed whatever the play step did, and that a removal
  failing because the file is already missing is ignored. The file never survives a round (the
  lemma above). But in the Termux script, when the player exits with status 1 and the staged
  file is already gone, the \<^verbatim>\<open>os.remove(temp_path)\<close> of the failure branch raises
  \<^verbatim>\<open>FileNotFoundError\<close> and the round passes it on; only the removal in the \<^verbatim>\<open>finally\<close> clause
  ignores it. With the file still there the round returns, and the ffplay script's round
  returns in both cases.
\<close>

theorem tx_iteration_propagates_missing_file:
  "fst (tx_iteration ''/tmp'' (tx_exits 1 True) ''/music/songA.mp3'' music_world) = Raise FileNotFoundError \<and>
   disk (snd (tx_iteration ''/tmp'' (tx_exits 1 True) ''/music/songA.mp3'' music_world))
     ''/tmp/8fb0aec765227888a14d5426bd526a97.mp3'' = None \<and>
   fst (tx_iteration ''/tmp'' (tx_exits 1 False) ''/music/songA.mp3'' music_world) = Return () \<and>
   fst (ff_iteration ''/tmp'' (ff_exits 1 True) ''/music/songA.mp3'' music_world) = Return () \<and>
   disk (snd (ff_iteration ''/tmp'' (ff_exits 1 True) ''/music/songA.mp3'' music_world))
     ''/tmp/8fb0aec765227888a14d5426bd526a97.mp3'' = None"
  by (simp add: loop_eval stage_eval example_eval path_eval)

lemma ff_main_loop:
  assumes "length (ff_argv e) = 2" and "os_path_isdir w (ff_argv e ! 1)" and "ff_which e"
    and "gather_music_files (ff_walk e) \<noteq> []"
    and "ff_while (ff_temp_dir e) (ff_script e) (gather_music_files (ff_walk e)) w = (r, w1)"
  shows "ff_main e w =
    (case r of
       Raise x \<Rightarrow>
         (if x = KeyboardInterrupt then (Exit 0, cleanup_ffplay (cleanup_ffplay w1))
          else (case x of SystemExit n \<Rightarrow> (Exit n, cleanup_ffplay w1) | _ \<Rightarrow> (Exit 1, cleanup_ffplay w1)))
     | _ \<Rightarrow> (Running, w1))"
  using assms by (cases r) (simp_all add: ff_main_def check_ffplay_def)

lemma tx_main_loop:
  assumes "length (tx_argv e) = 2" and "os_path_isdir w (tx_argv e ! 1)"
    and "gather_music_files (tx_walk e) \<noteq> []"
    and "tx_while (tx_temp_dir e) (tx_script e) (gather_music_files (tx_walk e)) w = (r, w1)"
  shows "tx_main e w =
    (case r of
       Raise x \<Rightarrow>
         (if x = KeyboardInterrupt then (Exit 0, stop_music (stop_music w1))
          else (case x of SystemExit n \<Rightarrow> (Exit n, stop_music w1) | _ \<Rightarrow> (Exit 1, stop_music w1)))
     | _ \<Rightarrow> (Running, w1))"
  using assms by (cases r) (simp_all add: tx_main_def)

text \<open>
  Claim C6. In the ffplay script an interruption during \<^verbatim>\<open>wait()\<close> makes \<^verbatim>\<open>play_file\<close> send
  \<^verbatim>\<open>terminate()\<close> to a player that is still running, wait up to two seconds, and \<^verbatim>\<open>kill()\<close> it
  if it has not ended by then; the handle is cleared, the round removes the staged file and
  raises \<^verbatim>\<open>KeyboardInterrupt\<close>; the loops pass the exception on; and \<^verbatim>\<open>main\<close> exits with status
  0. The Termux script holds no player process: an interruption raised inside the \<^verbatim>\<open>try\<close> block
  of a round leaves the round after the staged file is removed, the loops pass it on, and
  \<^verbatim>\<open>main\<close> sends the \<^verbatim>\<open>stop\<close> command (again at exit) and exits with status 0.
\<close>

theorem interrupt_cleans_up_and_exits_0:
  "(ff_copy_to_temp_md5 (ff_stage ev) d song w = (Return (Some p), w1) \<and> ff_run ev = Interrupted pr \<longrightarrow>
      fst (ff_iteration d ev song w) = Raise KeyboardInterrupt \<and>
      sent (snd (ff_iteration d ev song w)) = sent w @ [Popen p] @
        (case pr of Alive graceful \<Rightarrow> [Terminate, Wait_timeout 2] @ (if graceful then [] else [Kill])
                  | Ended \<Rightarrow> []) \<and>
      ffplay_process (snd (ff_iteration d ev song w)) = None \<and>
      disk (snd (ff_iteration d ev song w)) p = None) \<and>
   (fst (ff_iteration d ev song w) = Raise x \<longrightarrow>
      fst (ff_for d (ev # evs) (song # songs) w) = Raise x) \<and>
   (fst (ff_for d evs (shuffle draws songs) w) = Raise x \<longrightarrow>
      fst (ff_while d ((draws, evs) # passes) songs w) = Raise x) \<and>
   (length (ff_argv e) = 2 \<and> os_path_isdir w (ff_argv e ! 1) \<and> ff_which e \<and>
    gather_music_files (ff_walk e) \<noteq> [] \<and>
    fst (ff_while (ff_temp_dir e) (ff_script e) (gather_music_files (ff_walk e)) w) = Raise KeyboardInterrupt \<longrightarrow>
      fst (ff_main e w) = Exit 0) \<and>
   (tx_copy_to_temp_md5 (tx_stage tv) d song w = (Return (Some p), w2) \<and>
    fst (tx_iteration_try tv p w2) = Raise KeyboardInterrupt \<longrightarrow>
      fst (tx_iteration d tv song w) = Raise KeyboardInterrupt \<and>
      disk (snd (tx_iteration d tv song w)) p = None) \<and>
   (fst (tx_iteration d tv song w) = Raise x \<longrightarrow>
      fst (tx_for d (tv # tvs) (song # songs) w) = Raise x) \<and>
   (fst (tx_for d tvs (shuffle draws songs) w) = Raise x \<longrightarrow>
      fst (tx_while d ((draws, tvs) # tpasses) songs w) = Raise x) \<and>
   (length (tx_argv t) = 2 \<and> os_path_isdir w (tx_argv t ! 1) \<and>
    gather_music_files (tx_walk t) \<noteq> [] \<and>
    fst (tx_while (tx_temp_dir t) (tx_script t) (gather_music_files (tx_walk t)) w) = Raise KeyboardInterrupt \<longrightarrow>
      fst (tx_main t w) = Exit 0 \<and>
      sent (snd (tx_main t w)) =
        sent (snd (tx_while (tx_temp_dir t) (tx_script t) (gather_music_files (tx_walk t)) w)) @
          [Termux_stop, Termux_stop])"
proof -
  obtain r w' where i: "ff_iteration d ev song w = (r, w')" by (cases "ff_iteration d ev song w")
  have a: "ff_copy_to_temp_md5 (ff_stage ev) d song w = (Return (Some p), w1) \<and> ff_run ev = Interrupted pr \<longrightarrow>
      fst (ff_iteration d ev song w) = Raise KeyboardInterrupt \<and>
      sent (snd (ff_iteration d ev song w)) = sent w @ [Popen p] @
        (case pr of Alive graceful \<Rightarrow> [Terminate, Wait_timeout 2] @ (if graceful then [] else [Kill])
                  | Ended \<Rightarrow> []) \<and>
      ffplay_process (snd (ff_iteration d ev song w)) = None \<and>
      disk (snd (ff_iteration d ev song w)) p = None"
    using ff_iteration_facts(1) [OF i] i by auto
  have b: "fst (ff_iteration d ev song w) = Raise x \<longrightarrow>
      fst (ff_for d (ev # evs) (song # songs) w) = Raise x"
    by (cases "ff_iteration d ev song w") auto
  have c: "fst (ff_for d evs (shuffle draws songs) w) = Raise x \<longrightarrow>
      fst (ff_while d ((draws, evs) # passes) songs w) = Raise x"
    by (cases "ff_for d evs (shuffle draws songs) w") auto
  have m: "length (ff_argv e) = 2 \<and> os_path_isdir w (ff_argv e ! 1) \<and> ff_which e \<and>
    gather_music_files (ff_walk e) \<noteq> [] \<and>
    fst (ff_while (ff_temp_dir e) (ff_script e) (gather_music_files (ff_walk e)) w) = Raise KeyboardInterrupt \<longrightarrow>
      fst (ff_main e w) = Exit 0"
  proof
    assume h: "length (ff_argv e) = 2 \<and> os_path_isdir w (ff_argv e ! 1) \<and> ff_which e \<and>
      gather_music_files (ff_walk e) \<noteq> [] \<and>
      fst (ff_while (ff_temp_dir e) (ff_script e) (gather_music_files (ff_walk e)) w) = Raise KeyboardInterrupt"
    obtain r1 u where l: "ff_while (ff_temp_dir e) (ff_script e) (gather_music_files (ff_walk e)) w = (r1, u)"
      by (cases "ff_while (ff_temp_dir e) (ff_script e) (gather_music_files (ff_walk e)) w")
    then have "r1 = Raise KeyboardInterrupt" using h by simp
    then show "fst (ff_main e w) = Exit 0"
      using ff_main_loop [of e w r1 u] h l by simp
  qed
  obtain r2 w2' where j: "tx_iteration d tv song w = (r2, w2')" by (cases "tx_iteration d tv song w")
  have a': "tx_copy_to_temp_md5 (tx_stage tv) d song w = (Return (Some p), w2) \<and>
    fst (tx_iteration_try tv p w2) = Raise KeyboardInterrupt \<longrightarrow>
      fst (tx_iteration d tv song w) = Raise KeyboardInterrupt \<and>
      disk (snd (tx_iteration d tv song w)) p = None"
    using tx_iteration_facts [OF j] j by auto
  have b': "fst (tx_iteration d tv song w) = Raise x \<longrightarrow>
      fst (tx_for d (tv # tvs) (song # songs) w) = Raise x"
    by (cases "tx_iteration d tv song w") auto
  have c': "fst (tx_for d tvs (shuffle draws songs) w) = Raise x \<longrightarrow>
      fst (tx_while d ((draws, tvs) # tpasses) songs w) = Raise x"
    by (cases "tx_for d tvs (shuffle draws songs) w") auto
  have m': "length (tx_argv t) = 2 \<and> os_path_isdir w (tx_argv t ! 1) \<and>
    gather_music_files (tx_walk t) \<noteq> [] \<and>
    fst (tx_while (tx_temp_dir t) (tx_script t) (gather_music_files (tx_walk t)) w) = Raise KeyboardInterrupt \<longrightarrow>
      fst (tx_main t w) = Exit 0 \<and>
      sent (snd (tx_main t w)) =
        sent (snd (tx_while (tx_temp_dir t) (tx_script t) (gather_music_files (tx_walk t)) w)) @
          [Termux_stop, Termux_stop]"
  proof
    assume h: "length (tx_argv t) = 2 \<and> os_path_isdir w (tx_argv t ! 1) \<and>
      gather_music_files (tx_walk t) \<noteq> [] \<and>
      fst (tx_while (tx_temp_dir t) (tx_script t) (gather_music_files (tx_walk t)) w) = Raise KeyboardInterrupt"
    obtain r1 u where l: "tx_while (tx_temp_dir t) (tx_script t) (gather_music_files (tx_walk t)) w = (r1, u)"
      by (cases "tx_while (tx_temp_dir t) (tx_script t) (gather_music_files (tx_walk t)) w")
    then have "r1 = Raise KeyboardInterrupt" using h by simp
    then show "fst (tx_main t w) = Exit 0 \<and>
      sent (snd (tx_main t w)) =
        sent (snd (tx_while (tx_temp_dir t) (tx_script t) (gather_music_files (tx_walk t)) w)) @
          [Termux_stop, Termux_stop]"
      using tx_main_loop [of t w r1 u] h l by (simp add: stop_music_def)
  qed
  show ?thesis
    using a b c m a' b' c' m' by (intro conjI)
qed

end
